theory Spec2Isabelle
  imports Main "HOL-Library.Word" "HOL-Library.Monad_Syntax"
begin

section \<open>The module registry of \<^verbatim>\<open>utils/src/module.c\<close>\<close>

text \<open>
  The file keeps a process-wide, mutex-guarded, singly linked list of
  \<^verbatim>\<open>struct module\<close> objects, one for each loaded shared library. The model
  keeps the pointers: memory is a store from addresses to structs, the list is
  threaded through the \<^verbatim>\<open>next\<close> fields, and every operation passes the state
  explicitly. A call that does not return (it waits on a mutex that is never
  released, or walks a cyclic list) has the value \<open>None\<close>.
\<close>

subsection \<open>Data\<close>

text \<open>A pointer is an address; address \<open>0\<close> is \<^verbatim>\<open>NULL\<close>. Library handles
  (\<^verbatim>\<open>void *\<close>) and function pointers are addresses as well.\<close>

type_synonym addr = nat

text \<open>
  Modelled from the spec: \<^verbatim>\<open>struct module\<close> is declared in \<^verbatim>\<open>module.h\<close>, which is
  not among the sources. The fields are the ones \<^verbatim>\<open>module.c\<close> uses; \<open>ref_count\<close>
  is the "unsigned count of active holders" of the data model, a 32-bit
  \<^verbatim>\<open>unsigned int\<close>. The \<^verbatim>\<open>char *name\<close> is the string it points to, \<open>None\<close> for
  \<^verbatim>\<open>NULL\<close>.
\<close>

record module =
  name :: "string option"
  ref_count :: "32 word"
  handle :: addr
  init :: addr
  exit :: addr
  priv :: addr
  "next" :: addr

text \<open>What the file does to the world outside it, in the order it happens:
  calls of the platform loader and of the module callbacks, releases of heap
  blocks, and log lines (tagged with the format string of the call).\<close>

datatype event =
    Dlopen string int
  | Dlsym addr string
  | Dlclose addr
  | Call_init addr addr
  | Call_exit addr addr
  | Free_module addr
  | Free_string "string option"
  | Error_log string
  | Verbose_log string

text \<open>The globals \<^verbatim>\<open>g_module_head\<close>, \<^verbatim>\<open>g_module_err\<close> and \<^verbatim>\<open>g_lock\<close>, with the
  memory holding the structs, the set of addresses \<^verbatim>\<open>malloc\<close> has handed out and
  \<^verbatim>\<open>free\<close> has not taken back, and the trace of events.\<close>

record registry =
  memory :: "addr \<Rightarrow> module"
  allocated :: "addr set"
  g_module_head :: addr
  g_module_err :: "string option"
  g_lock :: bool
  trace :: "event list"

text \<open>
  The external collaborators, as the answers they give during one call of a
  public operation: \<^verbatim>\<open>malloc\<close> (address \<open>0\<close> when it fails), \<^verbatim>\<open>strdup\<close> (whether
  the copy can be allocated), the loader primitives, each paired with what
  \<^verbatim>\<open>dlerror()\<close> reports right after the call, and the initializer of a module
  (its status and what it leaves in the \<^verbatim>\<open>priv\<close> slot of the entry it is given).
\<close>

record platform =
  malloc :: addr
  strdup_ok :: "string \<Rightarrow> bool"
  dlopen :: "string \<Rightarrow> int \<Rightarrow> addr \<times> string option"
  dlsym :: "addr \<Rightarrow> string \<Rightarrow> addr \<times> string option"
  dlclose :: "addr \<Rightarrow> string option"
  run_init :: "addr \<Rightarrow> addr \<Rightarrow> int \<times> addr"

definition strdup :: "platform \<Rightarrow> string \<Rightarrow> string option" where
  "strdup P s = (if strdup_ok P s then Some s else None)"

subsection \<open>State primitives\<close>

definition pthread_mutex_lock :: "registry \<Rightarrow> registry option" where
  "pthread_mutex_lock s = (if g_lock s then None else Some (s\<lparr>g_lock := True\<rparr>))"

definition pthread_mutex_unlock :: "registry \<Rightarrow> registry" where
  "pthread_mutex_unlock s = s\<lparr>g_lock := False\<rparr>"

definition emit :: "event \<Rightarrow> registry \<Rightarrow> registry" where
  "emit e s = s\<lparr>trace := trace s @ [e]\<rparr>"

text \<open>
  Modelled from the spec: \<^verbatim>\<open>omx_errorLog\<close> and \<^verbatim>\<open>omx_verboseLog\<close> come from
  \<^verbatim>\<open>sysdeps.h\<close>, which is not among the sources. They are log sinks with no
  contract beyond diagnostic output: a call leaves one event and changes
  nothing else.
\<close>

definition omx_errorLog :: "string \<Rightarrow> registry \<Rightarrow> registry" where
  "omx_errorLog fmt s = emit (Error_log fmt) s"

definition omx_verboseLog :: "string \<Rightarrow> registry \<Rightarrow> registry" where
  "omx_verboseLog fmt s = emit (Verbose_log fmt) s"

text \<open>A write to the struct at address \<open>a\<close>.\<close>

definition store :: "addr \<Rightarrow> (module \<Rightarrow> module) \<Rightarrow> registry \<Rightarrow> registry" where
  "store a f s = s\<lparr>memory := (memory s)(a := f (memory s a))\<rparr>"

text \<open>\<^verbatim>\<open>free(module)\<close> for a struct.\<close>

definition free_module :: "addr \<Rightarrow> registry \<Rightarrow> registry" where
  "free_module a s = emit (Free_module a) (s\<lparr>allocated := allocated s - {a}\<rparr>)"

subsection \<open>List helpers\<close>

text \<open>\<^verbatim>\<open>for_each_module\<close> walks the \<^verbatim>\<open>next\<close> pointers until \<^verbatim>\<open>NULL\<close>; each helper
  is the loop with its early exit.\<close>

partial_function (option) module_find_with_name ::
  "(addr \<Rightarrow> module) \<Rightarrow> addr \<Rightarrow> string \<Rightarrow> addr option" where
  "module_find_with_name mem p filename =
     (if p = 0 then Some 0
      else if name (mem p) = Some filename then Some p
      else module_find_with_name mem (next (mem p)) filename)"

partial_function (option) module_find_with_handle ::
  "(addr \<Rightarrow> module) \<Rightarrow> addr \<Rightarrow> addr \<Rightarrow> addr option" where
  "module_find_with_handle mem p h =
     (if p = 0 then Some 0
      else if handle (mem p) = h then Some p
      else module_find_with_handle mem (next (mem p)) h)"

partial_function (option) find_last_module ::
  "(addr \<Rightarrow> module) \<Rightarrow> addr \<Rightarrow> addr option" where
  "find_last_module mem p =
     (if p = 0 then Some 0
      else if next (mem p) = 0 then Some p
      else find_last_module mem (next (mem p)))"

definition module_add_list ::
  "(addr \<Rightarrow> module) \<Rightarrow> addr \<Rightarrow> addr \<Rightarrow> ((addr \<Rightarrow> module) \<times> addr) option" where
  "module_add_list mem head add =
     do {
       last \<leftarrow> find_last_module mem head;
       if last \<noteq> 0 then Some (mem(last := (mem last)\<lparr>next := add\<rparr>), head)
       else Some (mem, add)
     }"

text \<open>The loop of \<^verbatim>\<open>module_del_list\<close>: the first node whose \<^verbatim>\<open>next\<close> is \<open>del\<close>,
  or \<^verbatim>\<open>NULL\<close> when the walk falls off the end.\<close>

partial_function (option) module_del_list_prev ::
  "(addr \<Rightarrow> module) \<Rightarrow> addr \<Rightarrow> addr \<Rightarrow> addr option" where
  "module_del_list_prev mem p del =
     (if p = 0 then Some 0
      else if next (mem p) = del then Some p
      else module_del_list_prev mem (next (mem p)) del)"

definition module_del_list ::
  "(addr \<Rightarrow> module) \<Rightarrow> addr \<Rightarrow> addr \<Rightarrow> ((addr \<Rightarrow> module) \<times> addr) option" where
  "module_del_list mem head del =
     do {
       prev \<leftarrow> module_del_list_prev mem head del;
       if prev = 0 then Some (mem, next (mem del))
       else Some (mem(prev := (mem prev)\<lparr>next := next (mem del)\<rparr>), head)
     }"

subsection \<open>Last Error\<close>

definition module_set_error :: "platform \<Rightarrow> string option \<Rightarrow> registry \<Rightarrow> registry" where
  "module_set_error P dlerr s =
     (let s1 = (if g_module_err s \<noteq> None then emit (Free_string (g_module_err s)) s else s)
      in case dlerr of
           Some e \<Rightarrow> s1\<lparr>g_module_err := strdup P e\<rparr>
         | None \<Rightarrow> s1\<lparr>g_module_err := None\<rparr>)"

definition module_error :: "registry \<Rightarrow> string option" where
  "module_error s = g_module_err s"

subsection \<open>\<^verbatim>\<open>module_open\<close>\<close>

text \<open>The two exit labels of \<^verbatim>\<open>module_open\<close>. \<^verbatim>\<open>free_new\<close> frees the new struct,
  unlocks and returns \<^verbatim>\<open>NULL\<close>; \<^verbatim>\<open>free_handle\<close> calls \<^verbatim>\<open>dlclose\<close> on the handle of
  the new struct and falls through to \<^verbatim>\<open>free_new\<close>.\<close>

definition free_new :: "addr \<Rightarrow> registry \<Rightarrow> addr \<times> registry" where
  "free_new new s = (0, pthread_mutex_unlock (free_module new s))"

definition free_handle :: "addr \<Rightarrow> registry \<Rightarrow> addr \<times> registry" where
  "free_handle new s = free_new new (emit (Dlclose (handle (memory s new))) s)"

text \<open>Lines 164 to 204: the new struct has its handle. Look the handle up,
  run the initializer, resolve the finalizer, copy the name, link the entry.\<close>

definition module_open_handle ::
  "platform \<Rightarrow> string \<Rightarrow> addr \<Rightarrow> registry \<Rightarrow> (addr \<times> registry) option" where
  "module_open_handle P file new s =
     do {
       existing \<leftarrow> module_find_with_handle (memory s) (g_module_head s) (handle (memory s new));
       if existing \<noteq> 0 then
         Some (existing,
           pthread_mutex_unlock (free_module new
             (store existing (\<lambda>m. m\<lparr>ref_count := ref_count m + 1\<rparr>)
               (omx_errorLog ''found opened module %s'' s))))
       else
         let (f, dlerr) = dlsym P (handle (memory s new)) ''module_init'';
             s1 = store new (\<lambda>m. m\<lparr>init := f\<rparr>)
                    (emit (Dlsym (handle (memory s new)) ''module_init'') s);
             (init_ret, s2) =
               (case dlerr of
                  None \<Rightarrow>
                    let (r, p) = run_init P f new
                    in (r, store new (\<lambda>m. m\<lparr>priv := p\<rparr>)
                             (emit (Call_init f new)
                               (omx_errorLog ''module %s has init(), call the symbol'' s1)))
                | Some e \<Rightarrow> (0, s1))
         in if init_ret \<noteq> 0 then
              Some (free_handle new
                (pthread_mutex_unlock (omx_errorLog ''module %s init() failed (%d)'' s2)))
            else
              let (g, dlerr2) = dlsym P (handle (memory s2 new)) ''module_exit'';
                  s3 = store new (\<lambda>m. m\<lparr>exit := (if dlerr2 \<noteq> None then 0 else g)\<rparr>)
                         (emit (Dlsym (handle (memory s2 new)) ''module_exit'') s2);
                  s4 = store new (\<lambda>m. m\<lparr>name := strdup P file\<rparr>) s3
              in if name (memory s4 new) = None then
                   Some (free_handle new
                     (if exit (memory s4 new) \<noteq> 0
                      then emit (Call_exit (exit (memory s4 new)) new) s4 else s4))
                 else
                   do {
                     (mem', head') \<leftarrow> module_add_list (memory s4) (g_module_head s4) new;
                     Some (new, pthread_mutex_unlock (s4\<lparr>memory := mem', g_module_head := head'\<rparr>))
                   }
     }"

definition module_open ::
  "platform \<Rightarrow> string \<Rightarrow> int \<Rightarrow> addr \<Rightarrow> registry \<Rightarrow> (addr \<times> registry) option" where
  "module_open P file flag preload s =
     do {
       s1 \<leftarrow> pthread_mutex_lock s;
       existing \<leftarrow> module_find_with_name (memory s1) (g_module_head s1) file;
       if existing \<noteq> 0 then
         Some (existing,
           pthread_mutex_unlock
             (store existing (\<lambda>m. m\<lparr>ref_count := ref_count m + 1\<rparr>)
               (omx_errorLog ''found opened module %s'' s1)))
       else if malloc P = 0 then Some (0, pthread_mutex_unlock s1)
       else
         let new = malloc P;
             s2 = store new (\<lambda>m. m\<lparr>ref_count := 1, priv := 0, next := 0\<rparr>)
                    (s1\<lparr>allocated := insert new (allocated s1)\<rparr>)
         in if preload \<noteq> 0 then
              module_open_handle P file new (store new (\<lambda>m. m\<lparr>handle := preload\<rparr>) s2)
            else
              let (h, dlerr) = dlopen P file flag;
                  s3 = store new (\<lambda>m. m\<lparr>handle := h\<rparr>) (emit (Dlopen file flag) s2)
              in case dlerr of
                   Some e \<Rightarrow>
                     Some (free_new new
                       (pthread_mutex_unlock
                         (module_set_error P (Some e) (omx_errorLog ''dlopen failed (%s)'' s3))))
                 | None \<Rightarrow> module_open_handle P file new s3
     }"

subsection \<open>\<^verbatim>\<open>module_close\<close>\<close>

text \<open>The result is a C \<^verbatim>\<open>int\<close>: \<^verbatim>\<open>ret = module->ref_count\<close> reads the 32-bit
  counter as a signed value.\<close>

definition module_close ::
  "platform \<Rightarrow> addr \<Rightarrow> 32 word \<Rightarrow> registry \<Rightarrow> (int \<times> registry) option" where
  "module_close P module preload s =
     (if module = 0 \<or> handle (memory s module) = 0 then Some (0, s)
      else
        do {
          s1 \<leftarrow> pthread_mutex_lock s;
          if ref_count (memory s1 module) = 0 then
            Some (0, omx_errorLog ''module %s decrease refcont (%d)------'' s1)
          else
            let s2 = store module (\<lambda>m. m\<lparr>ref_count := ref_count m - 1\<rparr>) s1;
                ret = sint (ref_count (memory s2 module));
                s3 = omx_verboseLog ''module %s decrease refcont (%d)'' s2
            in if ref_count (memory s3 module) \<noteq> 0 then Some (ret, pthread_mutex_unlock s3)
               else
                 let s4 = (if exit (memory s3 module) \<noteq> 0
                           then emit (Call_exit (exit (memory s3 module)) module) s3 else s3);
                     (ret2, s5) =
                       (if preload = 0 then
                          let s' = emit (Dlclose (handle (memory s4 module))) s4
                          in case dlclose P (handle (memory s4 module)) of
                               Some e \<Rightarrow> (- 1, module_set_error P (Some e) s')
                             | None \<Rightarrow> (ret, s')
                        else (ret, s4))
                 in do {
                      (mem', head') \<leftarrow> module_del_list (memory s5) (g_module_head s5) module;
                      let s6 = omx_verboseLog ''module %s closed''
                                 (s5\<lparr>memory := mem', g_module_head := head'\<rparr>);
                          s7 = (if preload = 0
                                then free_module module
                                       (emit (Free_string (name (memory s6 module))) s6)
                                else s6)
                      in Some (ret2, pthread_mutex_unlock s7)
                    }
        })"

subsection \<open>\<^verbatim>\<open>module_symbol\<close>\<close>

text \<open>The symbol name is a \<^verbatim>\<open>const char *\<close> that may be \<^verbatim>\<open>NULL\<close> (\<open>None\<close>).\<close>

definition module_symbol ::
  "platform \<Rightarrow> addr \<Rightarrow> string option \<Rightarrow> registry \<Rightarrow> (addr \<times> registry) option" where
  "module_symbol P module string s =
     (if module = 0 \<or> handle (memory s module) = 0 then Some (0, s)
      else case string of
        None \<Rightarrow> Some (0, s)
      | Some str \<Rightarrow>
          do {
            s1 \<leftarrow> pthread_mutex_lock s;
            let (symbol, dlerr) = dlsym P (handle (memory s1 module)) str;
                s2 = emit (Dlsym (handle (memory s1 module)) str) s1
            in case dlerr of
                 Some e \<Rightarrow>
                   Some (0, pthread_mutex_unlock
                     (module_set_error P (Some e)
                       (omx_errorLog ''not founded symbol %s in module %s (%s)'' s2)))
               | None \<Rightarrow>
                   Some (symbol, pthread_mutex_unlock
                     (omx_verboseLog ''found symbol %s in module %s'' s2))
          })"

subsection \<open>The registry at program start\<close>

text \<open>The statics are zero-initialised and the mutex is free; nothing has been
  allocated and nothing has happened. The content of memory is arbitrary.\<close>

definition empty_registry :: "(addr \<Rightarrow> module) \<Rightarrow> registry" where
  "empty_registry mem =
     \<lparr>memory = mem, allocated = {}, g_module_head = 0, g_module_err = None,
      g_lock = False, trace = []\<rparr>"

text \<open>The state in which the second half of \<^verbatim>\<open>module_open\<close> starts: the lock is
  held, the new struct is allocated and initialised, and it has its handle.\<close>

definition with_new_struct :: "platform \<Rightarrow> string \<Rightarrow> int \<Rightarrow> addr \<Rightarrow> registry \<Rightarrow> registry" where
  "with_new_struct P file flag preload s =
     s\<lparr>memory := (memory s)(malloc P := (memory s (malloc P))
          \<lparr>ref_count := 1, priv := 0, next := 0,
           handle := (if preload \<noteq> 0 then preload else fst (dlopen P file flag))\<rparr>),
       allocated := insert (malloc P) (allocated s),
       g_lock := True,
       trace := trace s @ (if preload \<noteq> 0 then [] else [Dlopen file flag])\<rparr>"

text \<open>The initializer does not stop the open: the module exports none, or it
  returns 0.\<close>

definition init_passes :: "platform \<Rightarrow> addr \<Rightarrow> addr \<Rightarrow> bool" where
  "init_passes P h new \<longleftrightarrow>
     (case dlsym P h ''module_init'' of
        (f, None) \<Rightarrow> fst (run_init P f new) = 0
      | (f, Some e) \<Rightarrow> True)"

subsection \<open>The list a head pointer denotes\<close>

text \<open>\<open>islist mem p ps\<close>: following \<^verbatim>\<open>next\<close> from \<open>p\<close> visits exactly the nodes \<open>ps\<close>,
  in this order, and then reaches \<^verbatim>\<open>NULL\<close>.\<close>

primrec islist :: "(addr \<Rightarrow> module) \<Rightarrow> addr \<Rightarrow> addr list \<Rightarrow> bool" where
  "islist mem p [] = (p = 0)"
| "islist mem p (a # as) = (p = a \<and> a \<noteq> 0 \<and> islist mem (next (mem a)) as)"

text \<open>
  The invariant of the registry, for the list \<open>ps\<close> of its entries: the head
  pointer denotes \<open>ps\<close>; every entry is an allocated struct; no two entries have
  the same name or the same handle; and a struct that is allocated but not (or
  no longer) linked has a zero reference count.
\<close>

definition registry_inv :: "registry \<Rightarrow> addr list \<Rightarrow> bool" where
  "registry_inv s ps \<longleftrightarrow>
     islist (memory s) (g_module_head s) ps
     \<and> set ps \<subseteq> allocated s
     \<and> distinct (map (\<lambda>a. name (memory s a)) ps)
     \<and> distinct (map (\<lambda>a. handle (memory s a)) ps)
     \<and> (\<forall>a \<in> allocated s - set ps. ref_count (memory s a) = 0)"

text \<open>
  The states a program can reach through the three public operations, with any
  answers of the platform. The calls are the ones C gives a meaning:
  \<^verbatim>\<open>malloc\<close> returns \<^verbatim>\<open>NULL\<close> or a block that is not in use, and \<^verbatim>\<open>module_close\<close>
  is handed \<^verbatim>\<open>NULL\<close> or a pointer to a struct that has not been freed.
\<close>

inductive reachable :: "registry \<Rightarrow> bool" where
  start: "reachable (empty_registry mem)"
| opened: "reachable s \<Longrightarrow> malloc P = 0 \<or> malloc P \<notin> allocated s \<Longrightarrow>
     module_open P file flag preload s = Some (r, s') \<Longrightarrow> reachable s'"
| closed: "reachable s \<Longrightarrow> module = 0 \<or> module \<in> allocated s \<Longrightarrow>
     module_close P module preload s = Some (n, s') \<Longrightarrow> reachable s'"
| looked_up: "reachable s \<Longrightarrow>
     module_symbol P module string s = Some (r, s') \<Longrightarrow> reachable s'"

subsection \<open>Concrete platforms and registries\<close>

text \<open>A struct with every field zero, and a memory that holds nothing else.\<close>

definition blank :: module where
  "blank = \<lparr>name = None, ref_count = 0, handle = 0, init = 0, exit = 0, priv = 0, next = 0\<rparr>"

definition blank_memory :: "addr \<Rightarrow> module" where
  "blank_memory = (\<lambda>a. blank)"

text \<open>A platform on which everything works: \<^verbatim>\<open>malloc\<close> hands out address 1, the
  loader gives handle 7 for any path, modules export neither callback.\<close>

definition plain_platform :: platform where
  "plain_platform =
     \<lparr>malloc = 1, strdup_ok = (\<lambda>s. True),
      dlopen = (\<lambda>file flag. (7, None)),
      dlsym = (\<lambda>h sym. (0, Some ''undefined symbol'')),
      dlclose = (\<lambda>h. None),
      run_init = (\<lambda>f m. (0, 0))\<rparr>"

text \<open>The registry holding \<^verbatim>\<open>libA.so\<close> once, at address 1 with handle 7.\<close>

definition one_entry :: registry where
  "one_entry =
     \<lparr>memory = blank_memory(1 := blank\<lparr>name := Some ''libA.so'', ref_count := 1, handle := 7\<rparr>),
      allocated = {1}, g_module_head = 1, g_module_err = None, g_lock = False, trace = []\<rparr>"

text \<open>A struct that is allocated, has a handle, is not linked into the list and
  has reference count zero: what a preloaded entry is after its last close.\<close>

definition unlinked_entry :: registry where
  "unlinked_entry =
     \<lparr>memory = blank_memory(1 := blank\<lparr>name := Some ''libA.so'', handle := 7\<rparr>),
      allocated = {1}, g_module_head = 0, g_module_err = None, g_lock = False, trace = []\<rparr>"

text \<open>A platform whose loader finds the symbol \<^verbatim>\<open>f\<close> at address 40 and nothing
  else, and one on which no string can be copied.\<close>

definition symbol_platform :: platform where
  "symbol_platform =
     plain_platform\<lparr>dlsym := (\<lambda>h sym. if sym = ''f'' then (40, None)
                                         else (0, Some ''undefined symbol''))\<rparr>"

definition no_memory_platform :: platform where
  "no_memory_platform = plain_platform\<lparr>malloc := 0, strdup_ok := (\<lambda>s. False)\<rparr>"

text \<open>Platforms whose \<^verbatim>\<open>dlclose\<close> reports an error; on the second one the
  message cannot be copied either.\<close>

definition busy_platform :: platform where
  "busy_platform = plain_platform\<lparr>dlclose := (\<lambda>h. Some ''library busy'')\<rparr>"

definition busy_no_memory_platform :: platform where
  "busy_no_memory_platform = busy_platform\<lparr>strdup_ok := (\<lambda>s. False)\<rparr>"

text \<open>The registry holding \<^verbatim>\<open>libA.so\<close> with \<open>2\<^sup>3\<^sup>1 + 1\<close> holders.\<close>

definition crowded_entry :: registry where
  "crowded_entry =
     one_entry\<lparr>memory := (memory one_entry)(1 := (memory one_entry 1)\<lparr>ref_count := 0x80000001\<rparr>)\<rparr>"

text \<open>A platform whose modules export \<^verbatim>\<open>module_init\<close> (at address 9) and nothing
  else, with an initializer that returns 3.\<close>

definition init_fails_platform :: platform where
  "init_fails_platform =
     plain_platform\<lparr>dlsym := (\<lambda>h sym. if sym = ''module_init'' then (9, None)
                                              else (0, Some ''undefined symbol'')),
                    run_init := (\<lambda>f m. (3, 0))\<rparr>"

section \<open>Linked lists in memory\<close>

lemmas state_defs = pthread_mutex_unlock_def emit_def omx_errorLog_def omx_verboseLog_def
  store_def free_module_def module_set_error_def free_new_def free_handle_def Let_def

lemma islist_unique: "islist mem p as \<Longrightarrow> islist mem p bs \<Longrightarrow> as = bs"
proof (induction as arbitrary: p bs)
  case Nil
  then show ?case by (cases bs) auto
next
  case (Cons a as)
  then show ?case by (cases bs) auto
qed

lemma islist_suffix:
  "islist mem p (as @ b # bs) \<Longrightarrow> islist mem b (b # bs)"
  by (induction as arbitrary: p) auto

lemma islist_notin_tail: "islist mem p (a # as) \<Longrightarrow> a \<notin> set as"
proof
  assume l: "islist mem p (a # as)" and "a \<in> set as"
  then obtain xs ys where as: "as = xs @ a # ys" by (auto simp: in_set_conv_decomp)
  from l have t: "islist mem (next (mem a)) as" by simp
  from t as have "islist mem a (a # ys)" using islist_suffix by blast
  then have "islist mem (next (mem a)) ys" by simp
  with t have "as = ys" by (rule islist_unique)
  with as show False by simp
qed

lemma islist_distinct: "islist mem p ps \<Longrightarrow> distinct ps"
proof (induction ps arbitrary: p)
  case Nil
  show ?case by simp
next
  case (Cons a as)
  from Cons.prems have "a \<notin> set as" by (rule islist_notin_tail)
  moreover from Cons.prems have "islist mem (next (mem a)) as" by simp
  then have "distinct as" by (rule Cons.IH)
  ultimately show ?case by simp
qed

lemma islist_nonzero: "islist mem p ps \<Longrightarrow> 0 \<notin> set ps"
  by (induction ps arbitrary: p) auto

lemma islist_upd:
  "a \<notin> set ps \<Longrightarrow> islist (mem(a := v)) p ps = islist mem p ps"
  by (induction ps arbitrary: p) auto

lemma islist_upd_same_next:
  "next v = next (mem a) \<Longrightarrow> islist (mem(a := v)) p ps = islist mem p ps"
  by (induction ps arbitrary: p) auto

lemma islist_same_next:
  "\<forall>a \<in> set ps. next (mem' a) = next (mem a) \<Longrightarrow> islist mem' p ps = islist mem p ps"
  by (induction ps arbitrary: p) auto

lemma find_with_name_islist:
  "islist mem p ps \<Longrightarrow>
   module_find_with_name mem p f =
     Some (case List.find (\<lambda>a. name (mem a) = Some f) ps of None \<Rightarrow> 0 | Some a \<Rightarrow> a)"
proof (induction ps arbitrary: p)
  case Nil
  then show ?case by (simp add: module_find_with_name.simps)
next
  case (Cons a as)
  then show ?case by (subst module_find_with_name.simps) auto
qed

lemma find_with_name_absent:
  assumes "islist mem p ps" and "\<forall>a \<in> set ps. name (mem a) \<noteq> Some f"
  shows "module_find_with_name mem p f = Some 0"
proof -
  have "List.find (\<lambda>a. name (mem a) = Some f) ps = None"
    using assms(2) by (simp add: find_None_iff)
  with find_with_name_islist[OF assms(1), of f] show ?thesis by simp
qed

lemma find_with_name_present:
  assumes "islist mem p ps" and "List.find (\<lambda>a. name (mem a) = Some f) ps = Some e"
  shows "module_find_with_name mem p f = Some e" and "e \<noteq> 0" and "e \<in> set ps"
    and "name (mem e) = Some f"
proof -
  from find_with_name_islist[OF assms(1), of f] assms(2)
  show "module_find_with_name mem p f = Some e" by simp
  from assms(2) show "e \<in> set ps" "name (mem e) = Some f"
    by (auto simp: find_Some_iff)
  with islist_nonzero[OF assms(1)] show "e \<noteq> 0" by metis
qed

lemma find_with_handle_islist:
  "islist mem p ps \<Longrightarrow>
   module_find_with_handle mem p h =
     Some (case List.find (\<lambda>a. handle (mem a) = h) ps of None \<Rightarrow> 0 | Some a \<Rightarrow> a)"
proof (induction ps arbitrary: p)
  case Nil
  then show ?case by (simp add: module_find_with_handle.simps)
next
  case (Cons a as)
  then show ?case by (subst module_find_with_handle.simps) auto
qed

lemma find_with_handle_absent:
  assumes "islist mem p ps" and "\<forall>a \<in> set ps. handle (mem a) \<noteq> h"
  shows "module_find_with_handle mem p h = Some 0"
proof -
  have "List.find (\<lambda>a. handle (mem a) = h) ps = None"
    using assms(2) by (simp add: find_None_iff)
  with find_with_handle_islist[OF assms(1), of h] show ?thesis by simp
qed

lemma find_with_handle_present:
  assumes "islist mem p ps" and "List.find (\<lambda>a. handle (mem a) = h) ps = Some e"
  shows "module_find_with_handle mem p h = Some e" and "e \<noteq> 0" and "e \<in> set ps"
    and "handle (mem e) = h"
proof -
  from find_with_handle_islist[OF assms(1), of h] assms(2)
  show "module_find_with_handle mem p h = Some e" by simp
  from assms(2) show "e \<in> set ps" "handle (mem e) = h"
    by (auto simp: find_Some_iff)
  with islist_nonzero[OF assms(1)] show "e \<noteq> 0" by metis
qed

lemma find_last_islist:
  "islist mem p ps \<Longrightarrow> find_last_module mem p = Some (if ps = [] then 0 else last ps)"
proof (induction ps arbitrary: p)
  case Nil
  then show ?case by (simp add: find_last_module.simps)
next
  case (Cons a as)
  then show ?case by (subst find_last_module.simps) (cases as; auto)
qed

lemma islist_snoc:
  "islist mem p ps \<Longrightarrow> ps \<noteq> [] \<Longrightarrow> new \<noteq> 0 \<Longrightarrow> new \<notin> set ps \<Longrightarrow> next (mem new) = 0 \<Longrightarrow>
   islist (mem(last ps := (mem (last ps))\<lparr>next := new\<rparr>)) p (ps @ [new])"
proof (induction ps arbitrary: p)
  case Nil
  then show ?case by simp
next
  case (Cons a as)
  show ?case
  proof (cases "as = []")
    case True
    with Cons.prems show ?thesis by auto
  next
    case False
    from Cons.prems(1) have d: "a \<notin> set as" by (rule islist_notin_tail)
    have "last as \<in> set as" using False by simp
    with d have ne: "last as \<noteq> a" by auto
    from Cons.prems have t: "islist mem (next (mem a)) as" and pa: "p = a" "a \<noteq> 0" by auto
    from Cons.prems have "islist (mem(last as := (mem (last as))\<lparr>next := new\<rparr>)) (next (mem a)) (as @ [new])"
      using False t by (intro Cons.IH) auto
    moreover have "last (a # as) = last as" using False by simp
    moreover have "next ((mem(last as := (mem (last as))\<lparr>next := new\<rparr>)) a) = next (mem a)"
      using ne by simp
    ultimately show ?thesis using pa by (simp del: fun_upd_apply last.simps)
  qed
qed

lemma module_add_list_islist:
  assumes "islist mem p ps" "new \<noteq> 0" "new \<notin> set ps" "next (mem new) = 0"
  shows "\<exists>mem'. module_add_list mem p new = Some (mem', if ps = [] then new else p)
           \<and> islist mem' (if ps = [] then new else p) (ps @ [new])
           \<and> (\<forall>a. mem' a = (mem a)\<lparr>next := next (mem' a)\<rparr>)"
proof (cases "ps = []")
  case True
  have "find_last_module mem p = Some 0"
    using find_last_islist[OF assms(1)] True by simp
  with True assms show ?thesis
    by (simp add: module_add_list_def)
next
  case False
  from assms(1) have "0 \<notin> set ps" by (rule islist_nonzero)
  moreover have "last ps \<in> set ps" using False by simp
  ultimately have nz: "last ps \<noteq> 0" by metis
  have fl: "find_last_module mem p = Some (last ps)"
    using find_last_islist[OF assms(1)] False by simp
  from False nz fl islist_snoc[OF assms(1) False assms(2,3,4)] show ?thesis
    by (simp add: module_add_list_def)
qed

lemma del_list_prev_none:
  "islist mem p ps \<Longrightarrow> d \<noteq> 0 \<Longrightarrow> d \<notin> set (tl ps) \<Longrightarrow> module_del_list_prev mem p d = Some 0"
proof (induction ps arbitrary: p)
  case Nil
  then show ?case by (simp add: module_del_list_prev.simps)
next
  case (Cons a as)
  from Cons.prems have t: "islist mem (next (mem a)) as" and pa: "p = a" "a \<noteq> 0" by auto
  have nd: "next (mem a) \<noteq> d" using t Cons.prems(2,3) by (cases as) auto
  have "d \<notin> set (tl as)" using Cons.prems(3) by (cases as) auto
  with t Cons.prems(2) have "module_del_list_prev mem (next (mem a)) d = Some 0"
    by (rule Cons.IH)
  with pa nd show ?case by (subst module_del_list_prev.simps) simp
qed

lemma del_list_prev_some:
  "islist mem p (a # as) \<Longrightarrow> d \<in> set as \<Longrightarrow>
   \<exists>prev. module_del_list_prev mem p d = Some prev \<and> prev \<noteq> 0 \<and> prev \<noteq> d
      \<and> islist (mem(prev := (mem prev)\<lparr>next := next (mem d)\<rparr>)) p (remove1 d (a # as))"
proof (induction as arbitrary: p a)
  case Nil
  then show ?case by simp
next
  case (Cons b bs)
  from Cons.prems(1) have pa: "p = a" "a \<noteq> 0" and nb: "next (mem a) = b"
    and t: "islist mem b (b # bs)" by auto
  from Cons.prems(1) have dist: "distinct (a # b # bs)" by (rule islist_distinct)
  show ?case
  proof (cases "b = d")
    case True
    define M where "M = mem(a := (mem a)\<lparr>next := next (mem d)\<rparr>)"
    from t True have "islist mem (next (mem d)) bs" by simp
    moreover have "a \<notin> set bs" using dist by simp
    ultimately have "islist M (next (mem d)) bs"
      unfolding M_def using islist_upd by blast
    moreover have "next (M a) = next (mem d)" unfolding M_def by simp
    ultimately have "islist M a (a # bs)" using pa by simp
    moreover have "remove1 d (a # b # bs) = a # bs" using dist True by auto
    moreover have "a \<noteq> d" using dist True by auto
    moreover have "module_del_list_prev mem p d = Some a"
      using pa nb True by (subst module_del_list_prev.simps) simp
    ultimately show ?thesis using pa unfolding M_def by metis
  next
    case False
    with Cons.prems(2) have "d \<in> set bs" by simp
    from Cons.IH[OF t this] obtain prev where
      pr: "module_del_list_prev mem b d = Some prev" "prev \<noteq> 0" "prev \<noteq> d"
      and l: "islist (mem(prev := (mem prev)\<lparr>next := next (mem d)\<rparr>)) b (remove1 d (b # bs))"
      by blast
    have ad: "a \<noteq> d" using dist Cons.prems(2) by auto
    have "a \<notin> set (remove1 d (b # bs))"
      using dist by (metis distinct.simps(2) notin_set_remove1)
    with l have l2: "islist mem b (remove1 d (b # bs))
        \<or> islist (mem(prev := (mem prev)\<lparr>next := next (mem d)\<rparr>)) b (remove1 d (b # bs))"
      by simp
    have prev_ne: "prev \<noteq> a"
    proof
      assume e: "prev = a"
      have "islist (mem(a := (mem a)\<lparr>next := next (mem d)\<rparr>)) b (remove1 d (b # bs))
            = islist mem b (remove1 d (b # bs))"
        using \<open>a \<notin> set (remove1 d (b # bs))\<close> by (rule islist_upd)
      with l e have "islist mem b (remove1 d (b # bs))" by simp
      with t have "remove1 d (b # bs) = b # bs" by (metis islist_unique)
      with \<open>d \<in> set bs\<close> show False
        by (metis length_remove1 list.set_intros(2) length_Cons diff_Suc_1 n_not_Suc_n)
    qed
    have "module_del_list_prev mem p d = Some prev"
      using pa nb False pr(1) by (subst module_del_list_prev.simps) simp
    moreover have "islist (mem(prev := (mem prev)\<lparr>next := next (mem d)\<rparr>)) p (remove1 d (a # b # bs))"
    proof -
      define M where "M = mem(prev := (mem prev)\<lparr>next := next (mem d)\<rparr>)"
      have "next (M a) = b" using prev_ne nb unfolding M_def by simp
      moreover have "islist M b (remove1 d (b # bs))" using l unfolding M_def .
      moreover have "remove1 d (a # b # bs) = a # remove1 d (b # bs)" using ad by simp
      ultimately have "islist M p (remove1 d (a # b # bs))" using pa by simp
      then show ?thesis unfolding M_def .
    qed
    ultimately show ?thesis using pr by blast
  qed
qed

lemma module_del_list_islist:
  assumes l: "islist mem p ps" and d: "d \<in> set ps"
  shows "\<exists>mem' p'. module_del_list mem p d = Some (mem', p')
           \<and> islist mem' p' (remove1 d ps)
           \<and> (\<forall>a. mem' a = (mem a)\<lparr>next := next (mem' a)\<rparr>)
           \<and> mem' d = mem d"
proof (cases ps)
  case Nil
  with d show ?thesis by simp
next
  case (Cons a as)
  have dz: "d \<noteq> 0" using islist_nonzero[OF l] d by metis
  show ?thesis
  proof (cases "d = a")
    case True
    have "a \<notin> set as" using l Cons islist_notin_tail by blast
    then have "module_del_list_prev mem p d = Some 0"
      using del_list_prev_none[OF l dz] Cons True by simp
    moreover have "islist mem (next (mem d)) (remove1 d ps)" using l Cons True by simp
    ultimately show ?thesis by (simp add: module_del_list_def)
  next
    case False
    with d Cons have "d \<in> set as" by simp
    from del_list_prev_some[OF l[unfolded Cons] this] obtain prev where
      "module_del_list_prev mem p d = Some prev" "prev \<noteq> 0" "prev \<noteq> d"
      "islist (mem(prev := (mem prev)\<lparr>next := next (mem d)\<rparr>)) p (remove1 d ps)"
      using Cons by blast
    then show ?thesis by (simp add: module_del_list_def)
  qed
qed

lemma module_del_list_frame:
  "module_del_list mem p d = Some (mem', p') \<Longrightarrow> mem' a = (mem a)\<lparr>next := next (mem' a)\<rparr>"
  by (auto simp: module_del_list_def bind_eq_Some_conv split: if_splits)

section \<open>The counter read as a C int\<close>

text \<open>Reading the 32-bit counter as a C \<^verbatim>\<open>int\<close>.\<close>

lemma sint_minus1_iff: "sint (w :: 32 word) = - 1 \<longleftrightarrow> w = - 1"
  by (metis sint_n1 signed_word_eqI)

lemma sint_small: "uint (v::32 word) < 2 ^ 31 \<Longrightarrow> sint v = uint v"
proof -
  assume a: "uint v < 2 ^ 31"
  have "- (2 ^ 31) \<le> uint v" by (rule order_trans[of _ 0]) simp_all
  with a have "signed_take_bit 31 (uint v) = uint v"
    by (simp add: signed_take_bit_int_eq_self)
  then show ?thesis by (simp add: sint_uint)
qed

lemma dec_nonneg:
  assumes "w \<noteq> 0" and "(w :: 32 word) \<le> 0x80000000"
  shows "sint (w - 1) = uint (w - 1) \<and> 0 \<le> sint (w - 1)"
proof -
  have "w - 1 < 0x80000000" using assms
    using less_eq_dec_iff linorder_not_less by blast
  then have "uint (w - 1) < 2 ^ 31" by (simp add: word_less_def)
  then have "sint (w - 1) = uint (w - 1)" by (rule sint_small)
  then show ?thesis by simp
qed

section \<open>The paths of \<^verbatim>\<open>module_close\<close>\<close>

lemma module_close_ref_count_zero_state:
  assumes "module \<noteq> 0" and "handle (memory s module) \<noteq> 0" and "\<not> g_lock s"
    and "ref_count (memory s module) = 0"
  shows "module_close P module preload s =
           Some (0, s\<lparr>g_lock := True,
                      trace := trace s @ [Error_log ''module %s decrease refcont (%d)------'']\<rparr>)"
  using assms
  by (simp add: module_close_def pthread_mutex_lock_def state_defs)

text \<open>A close that leaves holders: the count goes down, nothing else happens.\<close>

lemma module_close_not_last:
  assumes "module \<noteq> 0" and "handle (memory s module) \<noteq> 0" and "\<not> g_lock s"
    and "ref_count (memory s module) \<noteq> 0" and "ref_count (memory s module) \<noteq> 1"
  shows "module_close P module preload s =
           Some (sint (ref_count (memory s module) - 1),
             s\<lparr>memory := (memory s)(module := (memory s module)
                    \<lparr>ref_count := ref_count (memory s module) - 1\<rparr>),
               g_lock := False,
               trace := trace s @ [Verbose_log ''module %s decrease refcont (%d)'']\<rparr>)"
  using assms
  by (simp add: module_close_def pthread_mutex_lock_def state_defs)

text \<open>The close of the last holder of a linked entry: the finalizer, the unload
  unless preloaded, the unlink, the two \<^verbatim>\<open>free\<close>s unless preloaded, in this order.\<close>

lemma module_close_last:
  assumes m: "module \<noteq> 0" and h: "handle (memory s module) \<noteq> 0" and lk: "\<not> g_lock s"
    and rc: "ref_count (memory s module) = 1"
    and l: "islist (memory s) (g_module_head s) ps" and el: "module \<in> set ps"
  shows "\<exists>s'. module_close P module preload s =
           Some (if preload = 0 \<and> dlclose P (handle (memory s module)) \<noteq> None then - 1 else 0, s')
         \<and> islist (memory s') (g_module_head s') (remove1 module ps)
         \<and> (\<forall>a. memory s' a = (memory s a)
               \<lparr>ref_count := (if a = module then 0 else ref_count (memory s a)),
                next := next (memory s' a)\<rparr>)
         \<and> memory s' module = (memory s module)\<lparr>ref_count := 0\<rparr>
         \<and> allocated s' = (if preload = 0 then allocated s - {module} else allocated s)
         \<and> g_module_err s' =
             (if preload = 0 then
                (case dlclose P (handle (memory s module)) of
                   Some e \<Rightarrow> strdup P e | None \<Rightarrow> g_module_err s)
              else g_module_err s)
         \<and> trace s' = trace s @ [Verbose_log ''module %s decrease refcont (%d)'']
             @ (if exit (memory s module) \<noteq> 0
                then [Call_exit (exit (memory s module)) module] else [])
             @ (if preload = 0 then
                  Dlclose (handle (memory s module))
                  # (if dlclose P (handle (memory s module)) \<noteq> None \<and> g_module_err s \<noteq> None
                     then [Free_string (g_module_err s)] else [])
                else [])
             @ [Verbose_log ''module %s closed'']
             @ (if preload = 0
                then [Free_string (name (memory s module)), Free_module module] else [])
         \<and> \<not> g_lock s'"
proof -
  define M where "M = (memory s)(module := (memory s module)\<lparr>ref_count := 0\<rparr>)"
  have "islist M (g_module_head s) ps"
    unfolding M_def using l by (simp add: islist_upd_same_next)
  from module_del_list_islist[OF this el] obtain mem' p' where
    d: "module_del_list M (g_module_head s) module = Some (mem', p')"
    and l': "islist mem' p' (remove1 module ps)"
    and fr: "\<forall>a. mem' a = (M a)\<lparr>next := next (mem' a)\<rparr>"
    and same: "mem' module = M module"
    by blast
  have fr2: "\<forall>a. mem' a = (memory s a)
               \<lparr>ref_count := (if a = module then 0 else ref_count (memory s a)),
                next := next (mem' a)\<rparr>"
  proof
    fix a
    from fr have "mem' a = (M a)\<lparr>next := next (mem' a)\<rparr>" ..
    then show "mem' a = (memory s a)
               \<lparr>ref_count := (if a = module then 0 else ref_count (memory s a)),
                next := next (mem' a)\<rparr>"
      unfolding M_def by (cases "a = module") auto
  qed
  have same2: "mem' module = (memory s module)\<lparr>ref_count := 0\<rparr>"
    using same unfolding M_def by simp
  have nm: "name (mem' module) = name (memory s module)" using same2 by simp
  show ?thesis
    using m h lk rc d[unfolded M_def] l' fr2 same2 nm
    by (cases "dlclose P (handle (memory s module))")
       (simp_all add: module_close_def pthread_mutex_lock_def state_defs)
qed

section \<open>The paths of \<^verbatim>\<open>module_open\<close>\<close>

lemma module_open_handle_found:
  assumes l: "islist (memory s) (g_module_head s) ps"
    and f: "List.find (\<lambda>a. handle (memory s a) = handle (memory s new)) ps = Some e"
  shows "module_open_handle P path new s =
           Some (e, s\<lparr>memory := (memory s)(e := (memory s e)
                        \<lparr>ref_count := ref_count (memory s e) + 1\<rparr>),
                      allocated := allocated s - {new},
                      g_lock := False,
                      trace := trace s @ [Error_log ''found opened module %s'', Free_module new]\<rparr>)"
  using find_with_handle_present(1,2)[OF l f]
  by (simp add: module_open_handle_def state_defs)

lemma module_open_handle_init_fails:
  assumes l: "islist (memory s) (g_module_head s) ps"
    and nf: "\<forall>a \<in> set ps. handle (memory s a) \<noteq> handle (memory s new)"
    and sym: "dlsym P (handle (memory s new)) ''module_init'' = (f, None)"
    and ini: "run_init P f new = (r, p)" and r: "r \<noteq> 0"
  shows "module_open_handle P path new s =
           Some (0, s\<lparr>memory := (memory s)(new := (memory s new)\<lparr>init := f, priv := p\<rparr>),
                      allocated := allocated s - {new},
                      g_lock := False,
                      trace := trace s @
                        [Dlsym (handle (memory s new)) ''module_init'',
                         Error_log ''module %s has init(), call the symbol'',
                         Call_init f new,
                         Error_log ''module %s init() failed (%d)'',
                         Dlclose (handle (memory s new)),
                         Free_module new]\<rparr>)"
  using find_with_handle_absent[OF l nf] sym ini r
  by (simp add: module_open_handle_def state_defs)

lemma module_open_handle_no_name:
  assumes l: "islist (memory s) (g_module_head s) ps"
    and nf: "\<forall>a \<in> set ps. handle (memory s a) \<noteq> handle (memory s new)"
    and ini: "init_passes P (handle (memory s new)) new"
    and sd: "\<not> strdup_ok P path"
  shows "\<exists>s'. module_open_handle P path new s = Some (0, s')
           \<and> (\<forall>a. a \<noteq> new \<longrightarrow> memory s' a = memory s a)
           \<and> g_module_head s' = g_module_head s
           \<and> allocated s' = allocated s - {new}
           \<and> g_module_err s' = g_module_err s
           \<and> \<not> g_lock s'"
proof -
  obtain f d where i: "dlsym P (handle (memory s new)) ''module_init'' = (f, d)"
    by (cases "dlsym P (handle (memory s new)) ''module_init''")
  obtain g d2 where x: "dlsym P (handle (memory s new)) ''module_exit'' = (g, d2)"
    by (cases "dlsym P (handle (memory s new)) ''module_exit''")
  obtain r p where ri: "run_init P f new = (r, p)" by (cases "run_init P f new")
  show ?thesis
  proof (cases d)
    case None
    with ini i ri have "r = 0" by (simp add: init_passes_def)
    with find_with_handle_absent[OF l nf] i x ri sd None show ?thesis
      by (simp add: module_open_handle_def state_defs strdup_def)
  next
    case (Some e)
    with find_with_handle_absent[OF l nf] i x sd show ?thesis
      by (simp add: module_open_handle_def state_defs strdup_def)
  qed
qed

lemma module_open_handle_linked:
  assumes l: "islist (memory s) (g_module_head s) ps"
    and nn: "new \<notin> set ps" and nz: "new \<noteq> 0" and nx: "next (memory s new) = 0"
    and nf: "\<forall>a \<in> set ps. handle (memory s a) \<noteq> handle (memory s new)"
    and ini: "init_passes P (handle (memory s new)) new"
    and sd: "strdup_ok P path"
  shows "\<exists>s'. module_open_handle P path new s = Some (new, s')
           \<and> islist (memory s') (g_module_head s') (ps @ [new])
           \<and> (\<forall>a. a \<noteq> new \<longrightarrow> memory s' a = (memory s a)\<lparr>next := next (memory s' a)\<rparr>)
           \<and> name (memory s' new) = Some path
           \<and> handle (memory s' new) = handle (memory s new)
           \<and> ref_count (memory s' new) = ref_count (memory s new)
           \<and> allocated s' = allocated s
           \<and> g_module_err s' = g_module_err s
           \<and> \<not> g_lock s'
           \<and> (\<forall>h. count_list (trace s') (Dlclose h) = count_list (trace s) (Dlclose h))
           \<and> (\<forall>f fl. count_list (trace s') (Dlopen f fl) = count_list (trace s) (Dlopen f fl))"
proof -
  obtain f d where i: "dlsym P (handle (memory s new)) ''module_init'' = (f, d)"
    by (cases "dlsym P (handle (memory s new)) ''module_init''")
  obtain g d2 where x: "dlsym P (handle (memory s new)) ''module_exit'' = (g, d2)"
    by (cases "dlsym P (handle (memory s new)) ''module_exit''")
  obtain r p where ri: "run_init P f new = (r, p)" by (cases "run_init P f new")
  define v where "v = (memory s new)\<lparr>init := f,
      priv := (if d = None then p else priv (memory s new)),
      exit := (if d2 \<noteq> None then 0 else g), name := Some path\<rparr>"
  define M where "M = (memory s)(new := v)"
  have lM: "islist M (g_module_head s) ps"
    unfolding M_def using l nn islist_upd by blast
  have nxM: "next (M new) = 0" unfolding M_def v_def using nx by simp
  from module_add_list_islist[OF lM nz nn nxM] obtain mem' where
    add: "module_add_list M (g_module_head s) new
            = Some (mem', if ps = [] then new else g_module_head s)"
    and l': "islist mem' (if ps = [] then new else g_module_head s) (ps @ [new])"
    and fr: "\<forall>a. mem' a = (M a)\<lparr>next := next (mem' a)\<rparr>"
    by blast
  have frn: "mem' a = (M a)\<lparr>next := next (mem' a)\<rparr>" for a using fr ..
  have old: "\<forall>a. a \<noteq> new \<longrightarrow> mem' a = (memory s a)\<lparr>next := next (mem' a)\<rparr>"
  proof (intro allI impI)
    fix a assume "a \<noteq> new"
    then have "M a = memory s a" unfolding M_def by simp
    with frn[of a] show "mem' a = (memory s a)\<lparr>next := next (mem' a)\<rparr>" by simp
  qed
  have fld: "name (mem' new) = Some path" "handle (mem' new) = handle (memory s new)"
    "ref_count (mem' new) = ref_count (memory s new)"
  proof -
    have "M new = v" unfolding M_def by simp
    with frn[of new] have e: "mem' new = v\<lparr>next := next (mem' new)\<rparr>" by simp
    have "name (mem' new) = name (v\<lparr>next := next (mem' new)\<rparr>)" using e by simp
    then show "name (mem' new) = Some path" unfolding v_def by simp
    have "handle (mem' new) = handle (v\<lparr>next := next (mem' new)\<rparr>)" using e by simp
    then show "handle (mem' new) = handle (memory s new)" unfolding v_def by simp
    have "ref_count (mem' new) = ref_count (v\<lparr>next := next (mem' new)\<rparr>)" using e by simp
    then show "ref_count (mem' new) = ref_count (memory s new)" unfolding v_def by simp
  qed
  show ?thesis
  proof (cases d)
    case None
    with ini i ri have "r = 0" by (simp add: init_passes_def)
    with find_with_handle_absent[OF l nf] i x ri sd None add[unfolded M_def v_def] l' old fld
    show ?thesis
      by (simp add: module_open_handle_def state_defs strdup_def)
  next
    case (Some e)
    with find_with_handle_absent[OF l nf] i x sd add[unfolded M_def v_def] l' old fld
    show ?thesis
      by (simp add: module_open_handle_def state_defs strdup_def)
  qed
qed

lemma module_open_by_name:
  assumes lk: "\<not> g_lock s" and l: "islist (memory s) (g_module_head s) ps"
    and f: "List.find (\<lambda>a. name (memory s a) = Some path) ps = Some e"
  shows "module_open P path flag preload s =
           Some (e, s\<lparr>memory := (memory s)(e := (memory s e)
                        \<lparr>ref_count := ref_count (memory s e) + 1\<rparr>),
                      g_lock := False,
                      trace := trace s @ [Error_log ''found opened module %s'']\<rparr>)"
  using lk find_with_name_present(1,2)[OF l f]
  by (simp add: module_open_def pthread_mutex_lock_def state_defs)

lemma module_open_no_struct:
  assumes lk: "\<not> g_lock s" and l: "islist (memory s) (g_module_head s) ps"
    and nf: "\<forall>a \<in> set ps. name (memory s a) \<noteq> Some path"
    and ma: "malloc P = 0"
  shows "module_open P path flag preload s = Some (0, s\<lparr>g_lock := False\<rparr>)"
  using lk find_with_name_absent[OF l nf] ma
  by (simp add: module_open_def pthread_mutex_lock_def state_defs)

lemma module_open_load_fails:
  assumes lk: "\<not> g_lock s" and l: "islist (memory s) (g_module_head s) ps"
    and nf: "\<forall>a \<in> set ps. name (memory s a) \<noteq> Some path"
    and ma: "malloc P \<noteq> 0"
    and ld: "dlopen P path flag = (h, Some e)"
  shows "module_open P path flag 0 s =
           Some (0, s\<lparr>memory := (memory s)(malloc P := (memory s (malloc P))
                        \<lparr>ref_count := 1, priv := 0, next := 0, handle := h\<rparr>),
                      allocated := allocated s - {malloc P},
                      g_module_err := strdup P e,
                      g_lock := False,
                      trace := trace s @ [Dlopen path flag, Error_log ''dlopen failed (%s)'']
                        @ (if g_module_err s \<noteq> None then [Free_string (g_module_err s)] else [])
                        @ [Free_module (malloc P)]\<rparr>)"
  using lk find_with_name_absent[OF l nf] ma ld
  by (simp add: module_open_def pthread_mutex_lock_def state_defs)

lemma with_new_struct_fields:
  "memory (with_new_struct P path flag preload s) a =
     (if a = malloc P
      then (memory s (malloc P))\<lparr>ref_count := 1, priv := 0, next := 0,
             handle := (if preload \<noteq> 0 then preload else fst (dlopen P path flag))\<rparr>
      else memory s a)"
  "g_module_head (with_new_struct P path flag preload s) = g_module_head s"
  "allocated (with_new_struct P path flag preload s) = insert (malloc P) (allocated s)"
  "g_module_err (with_new_struct P path flag preload s) = g_module_err s"
  "trace (with_new_struct P path flag preload s) =
     trace s @ (if preload \<noteq> 0 then [] else [Dlopen path flag])"
  by (simp_all add: with_new_struct_def)

lemma with_new_struct_islist:
  assumes "islist (memory s) (g_module_head s) ps" and "malloc P \<notin> set ps"
  shows "islist (memory (with_new_struct P path flag preload s))
           (g_module_head (with_new_struct P path flag preload s)) ps"
  using assms by (simp add: with_new_struct_def islist_upd)

lemma module_open_new:
  assumes lk: "\<not> g_lock s" and l: "islist (memory s) (g_module_head s) ps"
    and nf: "\<forall>a \<in> set ps. name (memory s a) \<noteq> Some path"
    and ma: "malloc P \<noteq> 0"
    and ld: "preload \<noteq> 0 \<or> snd (dlopen P path flag) = None"
  shows "module_open P path flag preload s =
           module_open_handle P path (malloc P) (with_new_struct P path flag preload s)"
proof (cases "preload \<noteq> 0")
  case True
  with lk find_with_name_absent[OF l nf] ma show ?thesis
    by (simp add: module_open_def pthread_mutex_lock_def state_defs with_new_struct_def)
       (rule arg_cong[where f = "module_open_handle P path (malloc P)"],
        rule registry.equality, simp_all)
next
  case False
  with ld obtain h where "dlopen P path flag = (h, None)"
    by (cases "dlopen P path flag") auto
  with False lk find_with_name_absent[OF l nf] ma show ?thesis
    by (simp add: module_open_def pthread_mutex_lock_def state_defs with_new_struct_def)
       (rule arg_cong[where f = "module_open_handle P path (malloc P)"],
        rule registry.equality, simp_all)
qed

lemma module_open_init_fails:
  assumes lk: "\<not> g_lock s" and l: "islist (memory s) (g_module_head s) ps"
    and nf: "\<forall>a \<in> set ps. name (memory s a) \<noteq> Some path"
    and ma: "malloc P \<noteq> 0" and fresh: "malloc P \<notin> set ps"
    and ld: "preload \<noteq> 0 \<or> snd (dlopen P path flag) = None"
    and h: "h = (if preload \<noteq> 0 then preload else fst (dlopen P path flag))"
    and nh: "\<forall>a \<in> set ps. handle (memory s a) \<noteq> h"
    and sym: "dlsym P h ''module_init'' = (f, None)"
    and ini: "run_init P f (malloc P) = (r, p)" and r: "r \<noteq> 0"
  shows "module_open P path flag preload s =
           Some (0, s\<lparr>memory := (memory s)(malloc P := (memory s (malloc P))
                        \<lparr>ref_count := 1, priv := p, next := 0, handle := h, init := f\<rparr>),
                      allocated := allocated s - {malloc P},
                      g_lock := False,
                      trace := trace s @ (if preload \<noteq> 0 then [] else [Dlopen path flag])
                        @ [Dlsym h ''module_init'',
                           Error_log ''module %s has init(), call the symbol'',
                           Call_init f (malloc P),
                           Error_log ''module %s init() failed (%d)'',
                           Dlclose h,
                           Free_module (malloc P)]\<rparr>)"
proof -
  define t where "t = with_new_struct P path flag preload s"
  have ht: "handle (memory t (malloc P)) = h"
    unfolding t_def with_new_struct_def using h by simp
  have lt: "islist (memory t) (g_module_head t) ps"
    unfolding t_def with_new_struct_def using l fresh by (simp add: islist_upd)
  have nht: "\<forall>a \<in> set ps. handle (memory t a) \<noteq> handle (memory t (malloc P))"
    using nh fresh ht unfolding t_def with_new_struct_def by auto
  have "module_open P path flag preload s = module_open_handle P path (malloc P) t"
    unfolding t_def using lk l nf ma ld by (rule module_open_new)
  also have "\<dots> = Some (0, t\<lparr>memory := (memory t)(malloc P := (memory t (malloc P))\<lparr>init := f, priv := p\<rparr>),
                      allocated := allocated t - {malloc P},
                      g_lock := False,
                      trace := trace t @
                        [Dlsym (handle (memory t (malloc P))) ''module_init'',
                         Error_log ''module %s has init(), call the symbol'',
                         Call_init f (malloc P),
                         Error_log ''module %s init() failed (%d)'',
                         Dlclose (handle (memory t (malloc P))),
                         Free_module (malloc P)]\<rparr>)"
    using lt nht sym[folded ht] ini r by (rule module_open_handle_init_fails)
  finally show ?thesis
    unfolding t_def with_new_struct_def using h
    by (auto intro!: registry.equality module.equality ext)
qed

lemma module_open_by_handle:
  assumes lk: "\<not> g_lock s" and l: "islist (memory s) (g_module_head s) ps"
    and nf: "\<forall>a \<in> set ps. name (memory s a) \<noteq> Some path"
    and ma: "malloc P \<noteq> 0" and fresh: "malloc P \<notin> set ps"
    and ld: "preload \<noteq> 0 \<or> snd (dlopen P path flag) = None"
    and h: "h = (if preload \<noteq> 0 then preload else fst (dlopen P path flag))"
    and f: "List.find (\<lambda>a. handle (memory s a) = h) ps = Some e"
  shows "\<exists>s'. module_open P path flag preload s = Some (e, s')
           \<and> e \<in> set ps
           \<and> memory s' e = (memory s e)\<lparr>ref_count := ref_count (memory s e) + 1\<rparr>
           \<and> (\<forall>a. a \<noteq> e \<and> a \<noteq> malloc P \<longrightarrow> memory s' a = memory s a)
           \<and> g_module_head s' = g_module_head s
           \<and> allocated s' = allocated s - {malloc P}
           \<and> g_module_err s' = g_module_err s"
proof -
  define t where "t = with_new_struct P path flag preload s"
  have ht: "handle (memory t (malloc P)) = h"
    unfolding t_def using h by (simp add: with_new_struct_fields)
  have lt: "islist (memory t) (g_module_head t) ps"
    unfolding t_def using l fresh by (rule with_new_struct_islist)
  have "(\<lambda>a. handle (memory t a) = handle (memory t (malloc P))) a = (\<lambda>a. handle (memory s a) = h) a"
    if "a \<in> set ps" for a
    using that fresh ht unfolding t_def by (auto simp: with_new_struct_fields)
  then have "List.find (\<lambda>a. handle (memory t a) = handle (memory t (malloc P))) ps
               = List.find (\<lambda>a. handle (memory s a) = h) ps"
    by (intro find_cong) auto
  with f have ft: "List.find (\<lambda>a. handle (memory t a) = handle (memory t (malloc P))) ps = Some e"
    by simp
  from f have el: "e \<in> set ps" by (auto simp: find_Some_iff)
  with fresh have ne: "e \<noteq> malloc P" by auto
  have "module_open P path flag preload s = module_open_handle P path (malloc P) t"
    unfolding t_def using lk l nf ma ld by (rule module_open_new)
  also note module_open_handle_found[OF lt ft, of P path]
  finally show ?thesis using el ne
    unfolding t_def by (auto simp: with_new_struct_fields)
qed

lemma module_open_no_name:
  assumes lk: "\<not> g_lock s" and l: "islist (memory s) (g_module_head s) ps"
    and nf: "\<forall>a \<in> set ps. name (memory s a) \<noteq> Some path"
    and ma: "malloc P \<noteq> 0" and fresh: "malloc P \<notin> set ps"
    and ld: "preload \<noteq> 0 \<or> snd (dlopen P path flag) = None"
    and h: "h = (if preload \<noteq> 0 then preload else fst (dlopen P path flag))"
    and nh: "\<forall>a \<in> set ps. handle (memory s a) \<noteq> h"
    and ini: "init_passes P h (malloc P)"
    and sd: "\<not> strdup_ok P path"
  shows "\<exists>s'. module_open P path flag preload s = Some (0, s')
           \<and> (\<forall>a. a \<noteq> malloc P \<longrightarrow> memory s' a = memory s a)
           \<and> g_module_head s' = g_module_head s
           \<and> allocated s' = allocated s - {malloc P}
           \<and> g_module_err s' = g_module_err s"
proof -
  define t where "t = with_new_struct P path flag preload s"
  have ht: "handle (memory t (malloc P)) = h"
    unfolding t_def using h by (simp add: with_new_struct_fields)
  have lt: "islist (memory t) (g_module_head t) ps"
    unfolding t_def using l fresh by (rule with_new_struct_islist)
  have nht: "\<forall>a \<in> set ps. handle (memory t a) \<noteq> handle (memory t (malloc P))"
    using nh fresh ht unfolding t_def by (auto simp: with_new_struct_fields)
  have "module_open P path flag preload s = module_open_handle P path (malloc P) t"
    unfolding t_def using lk l nf ma ld by (rule module_open_new)
  with module_open_handle_no_name[OF lt nht ini[folded ht] sd]
  show ?thesis unfolding t_def by (auto simp: with_new_struct_fields)
qed

lemma module_open_linked:
  assumes lk: "\<not> g_lock s" and l: "islist (memory s) (g_module_head s) ps"
    and nf: "\<forall>a \<in> set ps. name (memory s a) \<noteq> Some path"
    and ma: "malloc P \<noteq> 0" and fresh: "malloc P \<notin> set ps"
    and ld: "preload \<noteq> 0 \<or> snd (dlopen P path flag) = None"
    and h: "h = (if preload \<noteq> 0 then preload else fst (dlopen P path flag))"
    and nh: "\<forall>a \<in> set ps. handle (memory s a) \<noteq> h"
    and ini: "init_passes P h (malloc P)"
    and sd: "strdup_ok P path"
  shows "\<exists>s'. module_open P path flag preload s = Some (malloc P, s')
           \<and> islist (memory s') (g_module_head s') (ps @ [malloc P])
           \<and> (\<forall>a. a \<noteq> malloc P \<longrightarrow> memory s' a = (memory s a)\<lparr>next := next (memory s' a)\<rparr>)
           \<and> name (memory s' (malloc P)) = Some path
           \<and> handle (memory s' (malloc P)) = h
           \<and> ref_count (memory s' (malloc P)) = 1
           \<and> allocated s' = insert (malloc P) (allocated s)
           \<and> g_module_err s' = g_module_err s
           \<and> \<not> g_lock s'
           \<and> (\<forall>h. count_list (trace s') (Dlclose h) = count_list (trace s) (Dlclose h))"
proof -
  define t where "t = with_new_struct P path flag preload s"
  have ht: "handle (memory t (malloc P)) = h"
    unfolding t_def using h by (simp add: with_new_struct_fields)
  have lt: "islist (memory t) (g_module_head t) ps"
    unfolding t_def using l fresh by (rule with_new_struct_islist)
  have nht: "\<forall>a \<in> set ps. handle (memory t a) \<noteq> handle (memory t (malloc P))"
    using nh fresh ht unfolding t_def by (auto simp: with_new_struct_fields)
  have nx: "next (memory t (malloc P)) = 0"
    unfolding t_def by (simp add: with_new_struct_fields)
  have "module_open P path flag preload s = module_open_handle P path (malloc P) t"
    unfolding t_def using lk l nf ma ld by (rule module_open_new)
  with module_open_handle_linked[OF lt fresh ma nx nht ini[folded ht] sd] ht
  show ?thesis unfolding t_def by (auto simp: with_new_struct_fields)
qed

text \<open>On the empty registry \<^verbatim>\<open>module_open\<close> returns an entry only by linking a new
  one.\<close>

lemma module_open_empty_success:
  assumes op: "module_open P path flag preload (empty_registry mem) = Some (e, s1)"
    and ok: "e \<noteq> 0"
  shows "islist (memory s1) (g_module_head s1) [e] \<and> name (memory s1 e) = Some path
           \<and> ref_count (memory s1 e) = 1 \<and> \<not> g_lock s1 \<and> allocated s1 = {e}"
proof -
  let ?s = "empty_registry mem"
  have lk: "\<not> g_lock ?s" and l: "islist (memory ?s) (g_module_head ?s) []"
    and nf: "\<forall>a \<in> set []. name (memory ?s a) \<noteq> Some path"
    and al: "allocated ?s = {}"
    by (simp_all add: empty_registry_def)
  have ma: "malloc P \<noteq> 0"
  proof
    assume "malloc P = 0"
    from module_open_no_struct[OF lk l nf this, of flag preload] op ok show False by simp
  qed
  have nl: "malloc P \<notin> set []" by simp
  have ld: "preload \<noteq> 0 \<or> snd (dlopen P path flag) = None"
  proof (rule ccontr)
    assume "\<not> (preload \<noteq> 0 \<or> snd (dlopen P path flag) = None)"
    then obtain h er where "dlopen P path flag = (h, Some er)" and "preload = 0"
      by (cases "dlopen P path flag") auto
    with module_open_load_fails[OF lk l nf ma, where h = h and e = er and flag = flag] op ok
    show False by simp
  qed
  define h where "h = (if preload \<noteq> 0 then preload else fst (dlopen P path flag))"
  have nh: "\<forall>a \<in> set []. handle (memory ?s a) \<noteq> h" by simp
  have ini: "init_passes P h (malloc P)"
  proof (rule ccontr)
    assume "\<not> init_passes P h (malloc P)"
    then obtain f where sym: "dlsym P h ''module_init'' = (f, None)"
      and st: "fst (run_init P f (malloc P)) \<noteq> 0"
      by (cases "dlsym P h ''module_init''")
         (auto simp: init_passes_def split: option.splits)
    obtain r0 p where rp: "run_init P f (malloc P) = (r0, p)"
      by (cases "run_init P f (malloc P)")
    with st have "r0 \<noteq> 0" by simp
    from module_open_init_fails[OF lk l nf ma nl ld h_def nh sym rp this] op ok
    show False by simp
  qed
  have sd: "strdup_ok P path"
  proof (rule ccontr)
    assume "\<not> strdup_ok P path"
    from module_open_no_name[OF lk l nf ma nl ld h_def nh ini this] op ok
    show False by auto
  qed
  from module_open_linked[OF lk l nf ma nl ld h_def nh ini sd] op al
  show ?thesis by auto
qed

section \<open>Where the lock is released\<close>

text \<open>\<^verbatim>\<open>module_open\<close> ends with the lock released on every path on which it
  returns (on two of them, the loader failure and the initializer failure, it
  unlocks twice), and so does \<^verbatim>\<open>module_symbol\<close>.\<close>

lemma g_lock_simps:
  "\<not> g_lock (pthread_mutex_unlock s)"
  "g_lock (free_module a s) = g_lock s"
  "g_lock (emit e s) = g_lock s"
  "g_lock (store a f s) = g_lock s"
  "g_lock (omx_errorLog fmt s) = g_lock s"
  "g_lock (omx_verboseLog fmt s) = g_lock s"
  "g_lock (module_set_error P d s) = g_lock s"
  by (simp_all add: state_defs split: option.splits)

lemma free_new_unlocks: "\<not> g_lock (snd (free_new new s))"
  by (simp add: free_new_def g_lock_simps)

lemma free_handle_unlocks: "\<not> g_lock (snd (free_handle new s))"
  by (simp add: free_handle_def free_new_unlocks)

lemma module_open_handle_unlocks:
  "module_open_handle P path new s = Some (r, s') \<Longrightarrow> \<not> g_lock s'"
  by (auto simp: module_open_handle_def free_handle_def free_new_def g_lock_simps Let_def
        bind_eq_Some_conv split: if_splits option.splits prod.splits)

lemma module_open_unlocks:
  "module_open P path flag preload s = Some (r, s') \<Longrightarrow> \<not> g_lock s'"
  by (auto simp: module_open_def free_new_def g_lock_simps Let_def
        bind_eq_Some_conv split: if_splits option.splits prod.splits
        dest: module_open_handle_unlocks)

lemma module_symbol_unlocks:
  "\<not> g_lock s \<Longrightarrow> module_symbol P module string s = Some (r, s') \<Longrightarrow> \<not> g_lock s'"
  by (auto simp: module_symbol_def pthread_mutex_lock_def g_lock_simps Let_def
        split: if_splits option.splits prod.splits)

section \<open>The invariant is kept\<close>

lemma registry_inv_frame:
  assumes inv: "registry_inv s ps"
    and hd: "g_module_head s' = g_module_head s" and al: "allocated s' = allocated s"
    and same: "\<forall>a \<in> set ps. name (memory s' a) = name (memory s a)
                 \<and> handle (memory s' a) = handle (memory s a)
                 \<and> next (memory s' a) = next (memory s a)"
    and rc: "\<forall>a \<in> allocated s - set ps. ref_count (memory s' a) = 0"
  shows "registry_inv s' ps"
proof -
  have l: "islist (memory s') (g_module_head s') ps"
    using inv hd same islist_same_next[of ps "memory s'" "memory s"]
    by (simp add: registry_inv_def)
  have e1: "map (\<lambda>a. name (memory s' a)) ps = map (\<lambda>a. name (memory s a)) ps"
    using same by simp
  have e2: "map (\<lambda>a. handle (memory s' a)) ps = map (\<lambda>a. handle (memory s a)) ps"
    using same by simp
  from inv have "distinct (map (\<lambda>a. name (memory s a)) ps)"
    "distinct (map (\<lambda>a. handle (memory s a)) ps)"
    by (simp_all add: registry_inv_def)
  then have d: "distinct (map (\<lambda>a. name (memory s' a)) ps)"
    "distinct (map (\<lambda>a. handle (memory s' a)) ps)"
    by (simp_all only: e1 e2)
  from inv al have "set ps \<subseteq> allocated s'" by (simp add: registry_inv_def)
  with l d rc al show ?thesis by (simp add: registry_inv_def)
qed

lemma registry_inv_empty: "registry_inv (empty_registry mem) []"
  by (simp add: registry_inv_def empty_registry_def)

lemma module_symbol_inv:
  assumes "registry_inv s ps" and "module_symbol P module string s = Some (r, s')"
  shows "registry_inv s' ps"
proof -
  from assms(2) have "memory s' = memory s \<and> g_module_head s' = g_module_head s
      \<and> allocated s' = allocated s"
    by (auto simp: module_symbol_def pthread_mutex_lock_def state_defs
          split: if_splits option.splits prod.splits)
  with assms(1) show ?thesis by (simp add: registry_inv_def)
qed

lemma module_close_inv:
  assumes inv: "registry_inv s ps" and valid: "module = 0 \<or> module \<in> allocated s"
    and res: "module_close P module preload s = Some (r, s')"
  shows "\<exists>ps'. registry_inv s' ps'"
proof (cases "module = 0 \<or> handle (memory s module) = 0")
  case True
  with res have "s' = s" by (auto simp: module_close_def)
  with inv show ?thesis by blast
next
  case False
  then have m: "module \<noteq> 0" and h: "handle (memory s module) \<noteq> 0" by auto
  from valid m have al: "module \<in> allocated s" by simp
  have lk: "\<not> g_lock s"
    using res False by (auto simp: module_close_def pthread_mutex_lock_def)
  from inv have l: "islist (memory s) (g_module_head s) ps" by (simp add: registry_inv_def)
  consider (zero) "ref_count (memory s module) = 0"
    | (one) "ref_count (memory s module) = 1"
    | (more) "ref_count (memory s module) \<noteq> 0" "ref_count (memory s module) \<noteq> 1"
    by blast
  then show ?thesis
  proof cases
    case zero
    from module_close_ref_count_zero_state[OF m h lk zero, of P preload] res
    have "memory s' = memory s" "g_module_head s' = g_module_head s" "allocated s' = allocated s"
      by auto
    with inv have "registry_inv s' ps" by (simp add: registry_inv_def)
    then show ?thesis ..
  next
    case more
    have el: "module \<in> set ps"
    proof (rule ccontr)
      assume "module \<notin> set ps"
      with al inv have "ref_count (memory s module) = 0" by (simp add: registry_inv_def)
      with more show False by simp
    qed
    from module_close_not_last[OF m h lk more, of P preload] res
    have s': "s' = s\<lparr>memory := (memory s)(module := (memory s module)
                    \<lparr>ref_count := ref_count (memory s module) - 1\<rparr>),
               g_lock := False,
               trace := trace s @ [Verbose_log ''module %s decrease refcont (%d)'']\<rparr>"
      by simp
    have "registry_inv s' ps"
      using inv
    proof (rule registry_inv_frame)
      show "g_module_head s' = g_module_head s" "allocated s' = allocated s"
        unfolding s' by simp_all
      show "\<forall>a \<in> set ps. name (memory s' a) = name (memory s a)
                 \<and> handle (memory s' a) = handle (memory s a)
                 \<and> next (memory s' a) = next (memory s a)"
        unfolding s' by simp
      show "\<forall>a \<in> allocated s - set ps. ref_count (memory s' a) = 0"
        using inv el unfolding s' by (auto simp: registry_inv_def)
    qed
    then show ?thesis ..
  next
    case one
    have el: "module \<in> set ps"
    proof (rule ccontr)
      assume "module \<notin> set ps"
      with al inv have "ref_count (memory s module) = 0" by (simp add: registry_inv_def)
      with one show False by simp
    qed
    from module_close_last[OF m h lk one l el, of P preload] res
    have l': "islist (memory s') (g_module_head s') (remove1 module ps)"
      and fr: "\<forall>a. memory s' a = (memory s a)
               \<lparr>ref_count := (if a = module then 0 else ref_count (memory s a)),
                next := next (memory s' a)\<rparr>"
      and al': "allocated s' = (if preload = 0 then allocated s - {module} else allocated s)"
      by auto
    have nm: "name (memory s' a) = name (memory s a)"
      and hn: "handle (memory s' a) = handle (memory s a)"
      and rc: "ref_count (memory s' a) = (if a = module then 0 else ref_count (memory s a))" for a
    proof -
      from fr have e: "memory s' a = (memory s a)
               \<lparr>ref_count := (if a = module then 0 else ref_count (memory s a)),
                next := next (memory s' a)\<rparr>" ..
      have "name (memory s' a) = name ((memory s a)
               \<lparr>ref_count := (if a = module then 0 else ref_count (memory s a)),
                next := next (memory s' a)\<rparr>)" using e by simp
      then show "name (memory s' a) = name (memory s a)" by simp
      have "handle (memory s' a) = handle ((memory s a)
               \<lparr>ref_count := (if a = module then 0 else ref_count (memory s a)),
                next := next (memory s' a)\<rparr>)" using e by simp
      then show "handle (memory s' a) = handle (memory s a)" by simp
      have "ref_count (memory s' a) = ref_count ((memory s a)
               \<lparr>ref_count := (if a = module then 0 else ref_count (memory s a)),
                next := next (memory s' a)\<rparr>)" using e by simp
      then show "ref_count (memory s' a) = (if a = module then 0 else ref_count (memory s a))"
        by simp
    qed
    from l have dist: "distinct ps" by (rule islist_distinct)
    have sub: "set (remove1 module ps) = set ps - {module}" using dist by simp
    have "distinct (map (\<lambda>a. name (memory s a)) (remove1 module ps))"
      using inv dist by (auto simp: registry_inv_def distinct_map intro: inj_on_subset)
    then have dn: "distinct (map (\<lambda>a. name (memory s' a)) (remove1 module ps))"
      by (simp add: nm)
    have "distinct (map (\<lambda>a. handle (memory s a)) (remove1 module ps))"
      using inv dist by (auto simp: registry_inv_def distinct_map intro: inj_on_subset)
    then have dh: "distinct (map (\<lambda>a. handle (memory s' a)) (remove1 module ps))"
      by (simp add: hn)
    have "set (remove1 module ps) \<subseteq> allocated s'"
      using inv sub al' by (auto simp: registry_inv_def)
    moreover have "\<forall>a \<in> allocated s' - set (remove1 module ps). ref_count (memory s' a) = 0"
      using inv sub al' rc by (auto simp: registry_inv_def split: if_splits)
    ultimately have "registry_inv s' (remove1 module ps)"
      using l' dn dh by (simp add: registry_inv_def)
    then show ?thesis ..
  qed
qed

lemma module_open_inv:
  assumes inv: "registry_inv s ps" and fresh: "malloc P = 0 \<or> malloc P \<notin> allocated s"
    and res: "module_open P path flag preload s = Some (r, s')"
  shows "\<exists>ps'. registry_inv s' ps'"
proof -
  have lk: "\<not> g_lock s"
    using res by (auto simp: module_open_def pthread_mutex_lock_def)
  from inv have l: "islist (memory s) (g_module_head s) ps"
    and sub: "set ps \<subseteq> allocated s"
    and idle: "\<forall>a \<in> allocated s - set ps. ref_count (memory s a) = 0"
    by (simp_all add: registry_inv_def)
  show ?thesis
  proof (cases "List.find (\<lambda>a. name (memory s a) = Some path) ps")
    case (Some e)
    then have el: "e \<in> set ps" by (auto simp: find_Some_iff)
    from module_open_by_name[OF lk l Some, of P flag preload] res
    have s': "s' = s\<lparr>memory := (memory s)(e := (memory s e)
                        \<lparr>ref_count := ref_count (memory s e) + 1\<rparr>),
                      g_lock := False,
                      trace := trace s @ [Error_log ''found opened module %s'']\<rparr>"
      by simp
    have "registry_inv s' ps"
      using inv
    proof (rule registry_inv_frame)
      show "g_module_head s' = g_module_head s" "allocated s' = allocated s"
        unfolding s' by simp_all
      show "\<forall>a \<in> set ps. name (memory s' a) = name (memory s a)
                 \<and> handle (memory s' a) = handle (memory s a)
                 \<and> next (memory s' a) = next (memory s a)"
        unfolding s' by simp
      show "\<forall>a \<in> allocated s - set ps. ref_count (memory s' a) = 0"
        using idle el unfolding s' by auto
    qed
    then show ?thesis ..
  next
    case None
    then have nf: "\<forall>a \<in> set ps. name (memory s a) \<noteq> Some path"
      by (simp add: find_None_iff)
    show ?thesis
    proof (cases "malloc P = 0")
      case True
      from module_open_no_struct[OF lk l nf True, of flag preload] res
      have "s' = s\<lparr>g_lock := False\<rparr>" by simp
      with inv have "registry_inv s' ps" by (simp add: registry_inv_def)
      then show ?thesis ..
    next
      case False
      with fresh have out: "malloc P \<notin> allocated s" by simp
      with sub have nl: "malloc P \<notin> set ps" by auto
      have keep: "registry_inv s' ps"
        if "\<forall>a. a \<noteq> malloc P \<longrightarrow> memory s' a = memory s a"
          and "g_module_head s' = g_module_head s"
          and "allocated s' = allocated s - {malloc P}"
        using inv
      proof (rule registry_inv_frame)
        show "g_module_head s' = g_module_head s" by (rule that)
        show "allocated s' = allocated s" using that(3) out by simp
        show "\<forall>a \<in> set ps. name (memory s' a) = name (memory s a)
                 \<and> handle (memory s' a) = handle (memory s a)
                 \<and> next (memory s' a) = next (memory s a)"
          using that(1) nl by metis
        show "\<forall>a \<in> allocated s - set ps. ref_count (memory s' a) = 0"
          using that(1) idle out by (metis DiffD1)
      qed
      show ?thesis
      proof (cases "preload = 0 \<and> snd (dlopen P path flag) \<noteq> None")
        case True
        then obtain h e where ld: "dlopen P path flag = (h, Some e)" and p0: "preload = 0"
          by (cases "dlopen P path flag") auto
        from module_open_load_fails[OF lk l nf False ld] res p0
        have "\<forall>a. a \<noteq> malloc P \<longrightarrow> memory s' a = memory s a"
          "g_module_head s' = g_module_head s"
          "allocated s' = allocated s - {malloc P}"
          by auto
        then have "registry_inv s' ps" by (rule keep)
        then show ?thesis ..
      next
        case False
        then have ld: "preload \<noteq> 0 \<or> snd (dlopen P path flag) = None" by auto
        define h where "h = (if preload \<noteq> 0 then preload else fst (dlopen P path flag))"
        show ?thesis
        proof (cases "List.find (\<lambda>a. handle (memory s a) = h) ps")
          case (Some e)
          from module_open_by_handle[OF lk l nf \<open>malloc P \<noteq> 0\<close> nl ld h_def Some] res
          have el: "e \<in> set ps"
            and me: "memory s' e = (memory s e)\<lparr>ref_count := ref_count (memory s e) + 1\<rparr>"
            and oth: "\<forall>a. a \<noteq> e \<and> a \<noteq> malloc P \<longrightarrow> memory s' a = memory s a"
            and hd: "g_module_head s' = g_module_head s"
            and al: "allocated s' = allocated s - {malloc P}"
            by auto
          have "registry_inv s' ps"
            using inv
          proof (rule registry_inv_frame)
            show "g_module_head s' = g_module_head s" by (rule hd)
            show "allocated s' = allocated s" using al out by simp
            show "\<forall>a \<in> set ps. name (memory s' a) = name (memory s a)
                 \<and> handle (memory s' a) = handle (memory s a)
                 \<and> next (memory s' a) = next (memory s a)"
            proof
              fix a assume a: "a \<in> set ps"
              show "name (memory s' a) = name (memory s a)
                 \<and> handle (memory s' a) = handle (memory s a)
                 \<and> next (memory s' a) = next (memory s a)"
              proof (cases "a = e")
                case True
                with me show ?thesis by simp
              next
                case False
                with a nl oth have "memory s' a = memory s a" by auto
                then show ?thesis by simp
              qed
            qed
            show "\<forall>a \<in> allocated s - set ps. ref_count (memory s' a) = 0"
              using oth idle out el by auto
          qed
          then show ?thesis ..
        next
          case None
          then have nh: "\<forall>a \<in> set ps. handle (memory s a) \<noteq> h"
            by (simp add: find_None_iff)
          show ?thesis
          proof (cases "init_passes P h (malloc P)")
            case False
            then obtain f where sym: "dlsym P h ''module_init'' = (f, None)"
              and st: "fst (run_init P f (malloc P)) \<noteq> 0"
              by (cases "dlsym P h ''module_init''")
                 (auto simp: init_passes_def split: option.splits)
            obtain r0 p where rp: "run_init P f (malloc P) = (r0, p)"
              by (cases "run_init P f (malloc P)")
            with st have "r0 \<noteq> 0" by simp
            from module_open_init_fails[OF lk l nf \<open>malloc P \<noteq> 0\<close> nl ld h_def nh sym rp this] res
            have "\<forall>a. a \<noteq> malloc P \<longrightarrow> memory s' a = memory s a"
              "g_module_head s' = g_module_head s"
              "allocated s' = allocated s - {malloc P}"
              by auto
            then have "registry_inv s' ps" by (rule keep)
            then show ?thesis ..
          next
            case True
            show ?thesis
            proof (cases "strdup_ok P path")
              case False
              from module_open_no_name[OF lk l nf \<open>malloc P \<noteq> 0\<close> nl ld h_def nh True False] res
              have "\<forall>a. a \<noteq> malloc P \<longrightarrow> memory s' a = memory s a"
                "g_module_head s' = g_module_head s"
                "allocated s' = allocated s - {malloc P}"
                by auto
              then have "registry_inv s' ps" by (rule keep)
              then show ?thesis ..
            next
              case sd: True
              from module_open_linked[OF lk l nf \<open>malloc P \<noteq> 0\<close> nl ld h_def nh True sd] res
              have l': "islist (memory s') (g_module_head s') (ps @ [malloc P])"
                and oth: "\<forall>a. a \<noteq> malloc P \<longrightarrow>
                            memory s' a = (memory s a)\<lparr>next := next (memory s' a)\<rparr>"
                and nm: "name (memory s' (malloc P)) = Some path"
                and hn: "handle (memory s' (malloc P)) = h"
                and al: "allocated s' = insert (malloc P) (allocated s)"
                by auto
              have fld: "name (memory s' a) = name (memory s a)
                  \<and> handle (memory s' a) = handle (memory s a)
                  \<and> ref_count (memory s' a) = ref_count (memory s a)" if "a \<noteq> malloc P" for a
              proof -
                from oth that have e: "memory s' a = (memory s a)\<lparr>next := next (memory s' a)\<rparr>"
                  by simp
                have "name (memory s' a) = name ((memory s a)\<lparr>next := next (memory s' a)\<rparr>)"
                  "handle (memory s' a) = handle ((memory s a)\<lparr>next := next (memory s' a)\<rparr>)"
                  "ref_count (memory s' a) = ref_count ((memory s a)\<lparr>next := next (memory s' a)\<rparr>)"
                  using e by simp_all
                then show ?thesis by simp
              qed
              have inl: "a \<noteq> malloc P" if "a \<in> set ps" for a using that nl by auto
              have e1: "map (\<lambda>a. name (memory s' a)) ps = map (\<lambda>a. name (memory s a)) ps"
                by (rule map_cong[OF refl]) (simp add: fld inl)
              have e2: "map (\<lambda>a. handle (memory s' a)) ps = map (\<lambda>a. handle (memory s a)) ps"
                by (rule map_cong[OF refl]) (simp add: fld inl)
              from inv have d: "distinct (map (\<lambda>a. name (memory s a)) ps)"
                "distinct (map (\<lambda>a. handle (memory s a)) ps)"
                by (simp_all add: registry_inv_def)
              have "Some path \<notin> set (map (\<lambda>a. name (memory s a)) ps)" using nf by auto
              with d(1) have dn: "distinct (map (\<lambda>a. name (memory s' a)) (ps @ [malloc P]))"
                by (simp add: e1 nm)
              have "h \<notin> set (map (\<lambda>a. handle (memory s a)) ps)" using nh by auto
              with d(2) have dh: "distinct (map (\<lambda>a. handle (memory s' a)) (ps @ [malloc P]))"
                by (simp add: e2 hn)
              have "set (ps @ [malloc P]) \<subseteq> allocated s'" using sub al by auto
              moreover have "\<forall>a \<in> allocated s' - set (ps @ [malloc P]). ref_count (memory s' a) = 0"
              proof
                fix a assume a: "a \<in> allocated s' - set (ps @ [malloc P])"
                then have "a \<noteq> malloc P" "a \<in> allocated s - set ps" using al by auto
                with idle fld[of a] show "ref_count (memory s' a) = 0" by simp
              qed
              ultimately have "registry_inv s' (ps @ [malloc P])"
                using l' dn dh by (simp add: registry_inv_def)
              then show ?thesis ..
            qed
          qed
        qed
      qed
    qed
  qed
qed

lemma reachable_inv: "reachable s \<Longrightarrow> \<exists>ps. registry_inv s ps"
proof (induction rule: reachable.induct)
  case (start mem)
  show ?case using registry_inv_empty by blast
next
  case (opened s P path flag preload r s')
  then show ?case using module_open_inv by blast
next
  case (closed s module P preload n s')
  then show ?case using module_close_inv by blast
next
  case (looked_up s P module string r s')
  then show ?case using module_symbol_inv by blast
qed

section \<open>The claims\<close>

lemmas concrete_defs = blank_def blank_memory_def plain_platform_def one_entry_def
  unlinked_entry_def symbol_platform_def no_memory_platform_def empty_registry_def
  busy_platform_def busy_no_memory_platform_def crowded_entry_def init_fails_platform_def

text \<open>
  Claim C1. Start from the empty registry. Let \<^verbatim>\<open>module_open(path, flag, NULL)\<close>
  succeed with entry \<open>e1\<close>, the loader having given it a handle; then \<open>e1\<close> has
  \<open>ref_count\<close> 1. A second \<^verbatim>\<open>module_open\<close> of the same path returns \<open>e1\<close> with
  \<open>ref_count\<close> 2, and its only event is a log line: no load. \<^verbatim>\<open>module_close(e1, 0)\<close>
  then returns 1 and the list still is \<open>[e1]\<close>. A second \<^verbatim>\<open>module_close(e1, 0)\<close>,
  the unload reporting no error, returns 0; the list is empty, the struct is
  freed, and \<^verbatim>\<open>dlclose\<close> was called on the handle during this call.
\<close>

theorem open_twice_close_twice:
  assumes op: "module_open P1 path flag 0 (empty_registry mem) = Some (e1, s1)"
    and ok: "e1 \<noteq> 0"
    and hd: "handle (memory s1 e1) \<noteq> 0"
    and un: "dlclose P4 (handle (memory s1 e1)) = None"
  shows "ref_count (memory s1 e1) = 1
     \<and> (\<exists>s2. module_open P2 path flag 0 s1 = Some (e1, s2)
          \<and> ref_count (memory s2 e1) = 2
          \<and> trace s2 = trace s1 @ [Error_log ''found opened module %s'']
          \<and> (\<exists>s3. module_close P3 e1 0 s2 = Some (1, s3)
               \<and> islist (memory s3) (g_module_head s3) [e1]
               \<and> (\<exists>s4. module_close P4 e1 0 s3 = Some (0, s4)
                    \<and> islist (memory s4) (g_module_head s4) []
                    \<and> e1 \<notin> allocated s4
                    \<and> Dlclose (handle (memory s1 e1))
                          \<in> set (drop (length (trace s3)) (trace s4)))))"
proof -
  from module_open_empty_success[OF op ok]
  have l1: "islist (memory s1) (g_module_head s1) [e1]"
    and nm1: "name (memory s1 e1) = Some path"
    and rc1: "ref_count (memory s1 e1) = 1" and lk1: "\<not> g_lock s1"
    by simp_all
  define s2 where "s2 = s1\<lparr>memory := (memory s1)(e1 := (memory s1 e1)
                        \<lparr>ref_count := ref_count (memory s1 e1) + 1\<rparr>),
                      g_lock := False,
                      trace := trace s1 @ [Error_log ''found opened module %s'']\<rparr>"
  have f: "List.find (\<lambda>a. name (memory s1 a) = Some path) [e1] = Some e1"
    using nm1 by simp
  have o2: "module_open P2 path flag 0 s1 = Some (e1, s2)"
    unfolding s2_def using lk1 l1 f by (rule module_open_by_name)
  have rc2: "ref_count (memory s2 e1) = 2" unfolding s2_def using rc1 by simp
  have h2: "handle (memory s2 e1) \<noteq> 0" unfolding s2_def using hd by simp
  have lk2: "\<not> g_lock s2" unfolding s2_def by simp
  define s3 where "s3 = s2\<lparr>memory := (memory s2)(e1 := (memory s2 e1)
                    \<lparr>ref_count := ref_count (memory s2 e1) - 1\<rparr>),
               g_lock := False,
               trace := trace s2 @ [Verbose_log ''module %s decrease refcont (%d)'']\<rparr>"
  have "module_close P3 e1 0 s2 = Some (sint (ref_count (memory s2 e1) - 1), s3)"
    unfolding s3_def using ok h2 lk2 rc2 by (intro module_close_not_last) simp_all
  then have c3: "module_close P3 e1 0 s2 = Some (1, s3)" using rc2 by simp
  have l3: "islist (memory s3) (g_module_head s3) [e1]"
    using l1 unfolding s3_def s2_def by simp
  have rc3: "ref_count (memory s3 e1) = 1" unfolding s3_def using rc2 by simp
  have h3: "handle (memory s3 e1) = handle (memory s1 e1)" unfolding s3_def s2_def by simp
  have lk3: "\<not> g_lock s3" unfolding s3_def by simp
  from module_close_last[OF ok _ lk3 rc3 l3, of P4 0] un hd h3
  obtain s4 where c4: "module_close P4 e1 0 s3 = Some (0, s4)"
    and l4: "islist (memory s4) (g_module_head s4) []"
    and a4: "e1 \<notin> allocated s4"
    and t4: "Dlclose (handle (memory s1 e1)) \<in> set (drop (length (trace s3)) (trace s4))"
    by (auto simp del: islist.simps)
  from rc1 o2 rc2 c3 l3 c4 l4 a4 t4 show ?thesis
    unfolding s2_def by (auto simp del: islist.simps)
qed

theorem open_twice_close_twice_witness:
  "\<exists>s1. module_open plain_platform ''libA.so'' 0 0 (empty_registry blank_memory) = Some (1, s1)
     \<and> ref_count (memory s1 1) = 1
     \<and> (\<exists>s2. module_open plain_platform ''libA.so'' 0 0 s1 = Some (1, s2)
          \<and> ref_count (memory s2 1) = 2
          \<and> (\<exists>s3. module_close plain_platform 1 0 s2 = Some (1, s3)
               \<and> g_module_head s3 = 1
               \<and> (\<exists>s4. module_close plain_platform 1 0 s3 = Some (0, s4)
                    \<and> g_module_head s4 = 0
                    \<and> 1 \<notin> allocated s4
                    \<and> Dlclose 7 \<in> set (drop (length (trace s3)) (trace s4)))))"
proof -
  let ?s = "empty_registry blank_memory"
  have s: "\<not> g_lock ?s" "islist (memory ?s) (g_module_head ?s) []"
    by (simp_all add: empty_registry_def)
  have p: "malloc plain_platform = 1" "strdup_ok plain_platform ''libA.so''"
    "snd (dlopen plain_platform ''libA.so'' 0) = None"
    "init_passes plain_platform 7 1"
    "7 = (if (0::addr) \<noteq> 0 then 0 else fst (dlopen plain_platform ''libA.so'' 0))"
    by (simp_all add: plain_platform_def init_passes_def)
  from module_open_linked[where s = ?s and ps = "[]" and P = plain_platform
      and path = "''libA.so''" and flag = 0 and preload = 0 and h = 7] s p
  obtain s1 where o: "module_open plain_platform ''libA.so'' 0 0 ?s = Some (1, s1)"
    and h: "handle (memory s1 1) = 7"
    by auto
  have un: "dlclose plain_platform (handle (memory s1 1)) = None"
    by (simp add: plain_platform_def)
  from open_twice_close_twice[OF o _ _ un, of plain_platform plain_platform] h o
  show ?thesis by auto
qed

text \<open>
  Claim C2 says that every public operation releases the lock on every exit
  path. \<^verbatim>\<open>module_close\<close> does not on one of them: the guard for a reference count
  of zero returns between \<^verbatim>\<open>pthread_mutex_lock\<close> and \<^verbatim>\<open>pthread_mutex_unlock\<close>.
  A run from the empty registry: open \<^verbatim>\<open>libA.so\<close> with preload handle 7, close it
  as preloaded (the struct is unlinked and stays allocated, with count 0), close
  it once more. The third call returns 0 with the lock held, and the next
  \<^verbatim>\<open>module_open\<close> never returns.
\<close>

theorem module_close_lock_leak:
  "\<exists>s1 s2 s3.
      module_open plain_platform ''libA.so'' 0 7 (empty_registry blank_memory) = Some (1, s1)
    \<and> \<not> g_lock s1
    \<and> module_close plain_platform 1 1 s1 = Some (0, s2) \<and> \<not> g_lock s2
    \<and> ref_count (memory s2 1) = 0
    \<and> module_close plain_platform 1 1 s2 = Some (0, s3) \<and> g_lock s3
    \<and> module_open plain_platform ''libB.so'' 0 0 s3 = None"
  by (simp add: module_open_def module_open_handle_def module_close_def
        pthread_mutex_lock_def
        module_find_with_name.simps module_find_with_handle.simps find_last_module.simps
        module_add_list_def module_del_list_def module_del_list_prev.simps
        state_defs concrete_defs strdup_def)

text \<open>
  Claim C3. In every state reachable from the empty registry by calls of
  \<^verbatim>\<open>module_open\<close>, \<^verbatim>\<open>module_close\<close> and \<^verbatim>\<open>module_symbol\<close>, the head pointer denotes
  a list of entries in which no name occurs twice and no handle occurs twice.
\<close>

theorem reachable_unique_entries:
  "reachable s \<Longrightarrow>
   \<exists>ps. islist (memory s) (g_module_head s) ps
      \<and> distinct (map (\<lambda>a. name (memory s a)) ps)
      \<and> distinct (map (\<lambda>a. handle (memory s a)) ps)"
proof -
  assume "reachable s"
  then obtain ps where "registry_inv s ps" using reachable_inv by blast
  then show ?thesis by (auto simp: registry_inv_def)
qed

text \<open>The state after one successful open is reachable.\<close>

theorem reachable_unique_entries_witness:
  "\<exists>s. module_open plain_platform ''libA.so'' 0 0 (empty_registry blank_memory) = Some (1, s)
      \<and> reachable s
      \<and> (\<exists>ps. islist (memory s) (g_module_head s) ps
            \<and> distinct (map (\<lambda>a. name (memory s a)) ps)
            \<and> distinct (map (\<lambda>a. handle (memory s a)) ps))"
proof -
  let ?s = "empty_registry blank_memory"
  have s: "\<not> g_lock ?s" "islist (memory ?s) (g_module_head ?s) []" "allocated ?s = {}"
    by (simp_all add: empty_registry_def)
  have p: "malloc plain_platform = 1" "strdup_ok plain_platform ''libA.so''"
    "snd (dlopen plain_platform ''libA.so'' 0) = None"
    "init_passes plain_platform 7 1"
    "7 = (if (0::addr) \<noteq> 0 then 0 else fst (dlopen plain_platform ''libA.so'' 0))"
    by (simp_all add: plain_platform_def init_passes_def)
  from module_open_linked[where s = ?s and ps = "[]" and P = plain_platform
      and path = "''libA.so''" and flag = 0 and preload = 0 and h = 7] s p
  obtain s1 where o: "module_open plain_platform ''libA.so'' 0 0 ?s = Some (1, s1)"
    by auto
  have "reachable ?s" by (rule reachable.start)
  then have r: "reachable s1"
    using _ o by (rule reachable.opened) (simp add: s p)
  from reachable_unique_entries[OF r] o r show ?thesis by blast
qed

text \<open>
  Claim C4, as the code has it. \<^verbatim>\<open>module_open\<close> is called with the lock free on a
  registry with entries \<open>ps\<close>, none of them named \<open>path\<close>; \<^verbatim>\<open>malloc\<close> gives a new
  struct; the handle \<open>h\<close> is the preload handle or what \<^verbatim>\<open>dlopen\<close> returns without
  error; no entry has this handle; the module exports \<^verbatim>\<open>module_init\<close> and the
  initializer returns a nonzero status. Then \<^verbatim>\<open>module_open\<close> returns \<^verbatim>\<open>NULL\<close>; Last
  Error is left as it was (it is not set); the list and its entries are
  unchanged, so a lookup of \<open>path\<close> by name finds nothing; and the open is
  unwound: the last two events are \<^verbatim>\<open>dlclose\<close> of the handle and \<^verbatim>\<open>free\<close> of the
  new struct, which is no longer allocated.
\<close>

theorem module_open_init_failure:
  assumes "\<not> g_lock s" and "islist (memory s) (g_module_head s) ps"
    and "\<forall>a \<in> set ps. name (memory s a) \<noteq> Some path"
    and "malloc P \<noteq> 0" and "malloc P \<notin> set ps"
    and "preload \<noteq> 0 \<or> snd (dlopen P path flag) = None"
    and "h = (if preload \<noteq> 0 then preload else fst (dlopen P path flag))"
    and "\<forall>a \<in> set ps. handle (memory s a) \<noteq> h"
    and "dlsym P h ''module_init'' = (f, None)"
    and "fst (run_init P f (malloc P)) \<noteq> 0"
  shows "\<exists>s'. module_open P path flag preload s = Some (0, s')
           \<and> module_error s' = module_error s
           \<and> g_module_head s' = g_module_head s
           \<and> islist (memory s') (g_module_head s') ps
           \<and> (\<forall>a \<in> set ps. memory s' a = memory s a)
           \<and> module_find_with_name (memory s') (g_module_head s') path = Some 0
           \<and> allocated s' = allocated s - {malloc P}
           \<and> (\<exists>evs. trace s' = trace s @ evs @ [Dlclose h, Free_module (malloc P)])"
proof -
  obtain r p where rp: "run_init P f (malloc P) = (r, p)" by (cases "run_init P f (malloc P)")
  with assms(10) have r: "r \<noteq> 0" by simp
  define s' where "s' = s\<lparr>memory := (memory s)(malloc P := (memory s (malloc P))
                        \<lparr>ref_count := 1, priv := p, next := 0, handle := h, init := f\<rparr>),
                      allocated := allocated s - {malloc P},
                      g_lock := False,
                      trace := trace s @ (if preload \<noteq> 0 then [] else [Dlopen path flag])
                        @ [Dlsym h ''module_init'',
                           Error_log ''module %s has init(), call the symbol'',
                           Call_init f (malloc P),
                           Error_log ''module %s init() failed (%d)'',
                           Dlclose h,
                           Free_module (malloc P)]\<rparr>"
  have res: "module_open P path flag preload s = Some (0, s')"
    unfolding s'_def using assms(1-9) rp r by (rule module_open_init_fails)
  have same: "\<forall>a \<in> set ps. memory s' a = memory s a"
    using assms(5) unfolding s'_def by auto
  have l': "islist (memory s') (g_module_head s') ps"
    using assms(2,5) unfolding s'_def by (simp add: islist_upd)
  have "\<forall>a \<in> set ps. name (memory s' a) \<noteq> Some path"
    using same assms(3) by simp
  with l' have "module_find_with_name (memory s') (g_module_head s') path = Some 0"
    by (rule find_with_name_absent)
  moreover have "\<exists>evs. trace s' = trace s @ evs @ [Dlclose h, Free_module (malloc P)]"
    unfolding s'_def by (cases "preload \<noteq> 0") simp_all
  moreover have "module_error s' = module_error s" "g_module_head s' = g_module_head s"
    "allocated s' = allocated s - {malloc P}"
    unfolding s'_def by (simp_all add: module_error_def)
  ultimately show ?thesis using res same l' by blast
qed

theorem module_open_init_failure_witness:
  "\<exists>s'. module_open init_fails_platform ''libA.so'' 0 0 (empty_registry blank_memory) = Some (0, s')
           \<and> module_error s' = None
           \<and> g_module_head s' = 0
           \<and> module_find_with_name (memory s') (g_module_head s') ''libA.so'' = Some 0
           \<and> allocated s' = {}
           \<and> (\<exists>evs. trace s' = evs @ [Dlclose 7, Free_module 1])"
proof -
  let ?s = "empty_registry blank_memory"
  have s: "\<not> g_lock ?s" "islist (memory ?s) (g_module_head ?s) []"
    "module_error ?s = None" "g_module_head ?s = 0" "allocated ?s = {}" "trace ?s = []"
    by (simp_all add: empty_registry_def module_error_def)
  have p: "malloc init_fails_platform = 1"
    "7 = (if (0::addr) \<noteq> 0 then 0 else fst (dlopen init_fails_platform ''libA.so'' 0))"
    "snd (dlopen init_fails_platform ''libA.so'' 0) = None"
    "dlsym init_fails_platform 7 ''module_init'' = (9, None)"
    "fst (run_init init_fails_platform 9 1) \<noteq> 0"
    by (simp_all add: init_fails_platform_def plain_platform_def)
  from module_open_init_failure[where s = ?s and ps = "[]"
      and P = init_fails_platform and path = "''libA.so''" and flag = 0 and preload = 0
      and h = 7 and f = 9] s p
  show ?thesis by simp
qed

text \<open>
  Claim C4 as it is written says that Last Error is set to report the
  failure, as for a loader failure. The initializer-failure path logs and
  unwinds without calling \<^verbatim>\<open>module_set_error\<close>: with an initializer that returns
  3, \<^verbatim>\<open>module_open\<close> on the empty registry returns \<^verbatim>\<open>NULL\<close> and Last Error is
  still \<^verbatim>\<open>NULL\<close>.
\<close>

theorem module_open_init_failure_counterexample:
  "fst (run_init init_fails_platform 9 1) = 3
   \<and> map_option fst
        (module_open init_fails_platform ''libA.so'' 0 0 (empty_registry blank_memory)) = Some 0
   \<and> map_option (module_error \<circ> snd)
        (module_open init_fails_platform ''libA.so'' 0 0 (empty_registry blank_memory)) = Some None"
proof -
  let ?s = "empty_registry blank_memory"
  have s: "\<not> g_lock ?s" "islist (memory ?s) (g_module_head ?s) []" "g_module_err ?s = None"
    by (simp_all add: empty_registry_def)
  have p: "malloc init_fails_platform = 1"
    "7 = (if (0::addr) \<noteq> 0 then 0 else fst (dlopen init_fails_platform ''libA.so'' 0))"
    "snd (dlopen init_fails_platform ''libA.so'' 0) = None"
    "dlsym init_fails_platform 7 ''module_init'' = (9, None)"
    "run_init init_fails_platform 9 1 = (3, 0)"
    by (simp_all add: init_fails_platform_def plain_platform_def)
  from module_open_init_fails[where s = ?s and ps = "[]"
      and P = init_fails_platform and path = "''libA.so''" and flag = 0 and preload = 0
      and h = 7 and f = 9 and r = 3 and p = 0] s p
  show ?thesis by (simp add: module_error_def)
qed

text \<open>
  Claim C5 says that \<^verbatim>\<open>module_close\<close> on an entry whose \<open>ref_count\<close> is already
  zero logs, returns 0 and is a no-op that leaves the registry state unchanged.
  The guard does return 0 with one log line, does not decrement, and calls no
  finalizer, no \<^verbatim>\<open>dlclose\<close> and no \<^verbatim>\<open>free\<close>: memory, the allocated structs, the
  list head and Last Error are what they were. But it returns between
  \<^verbatim>\<open>pthread_mutex_lock\<close> and \<^verbatim>\<open>pthread_mutex_unlock\<close>, so the call is not a no-op:
  on a preloaded entry after its last close, the lock is free before the call
  and held after it, and the next \<^verbatim>\<open>module_close\<close> or \<^verbatim>\<open>module_open\<close> never
  returns. This is the defect of claim C2.
\<close>

theorem module_close_ref_count_zero_holds_lock:
  "\<exists>s'. module_close plain_platform 1 0 unlinked_entry = Some (0, s')
      \<and> memory s' = memory unlinked_entry
      \<and> ref_count (memory s' 1) = 0
      \<and> allocated s' = allocated unlinked_entry
      \<and> g_module_head s' = g_module_head unlinked_entry
      \<and> module_error s' = module_error unlinked_entry
      \<and> trace s' = [Error_log ''module %s decrease refcont (%d)------'']
      \<and> \<not> g_lock unlinked_entry \<and> g_lock s'
      \<and> module_close plain_platform 1 0 s' = None
      \<and> module_open plain_platform ''libB.so'' 0 0 s' = None"
proof -
  have u: "(1::addr) \<noteq> 0" "handle (memory unlinked_entry 1) \<noteq> 0" "\<not> g_lock unlinked_entry"
    "ref_count (memory unlinked_entry 1) = 0" "trace unlinked_entry = []"
    by (simp_all add: unlinked_entry_def blank_memory_def blank_def)
  define s' where "s' = unlinked_entry\<lparr>g_lock := True,
      trace := trace unlinked_entry @ [Error_log ''module %s decrease refcont (%d)------'']\<rparr>"
  have c: "module_close plain_platform 1 0 unlinked_entry = Some (0, s')"
    unfolding s'_def using u(1-4) by (rule module_close_ref_count_zero_state)
  have f: "memory s' = memory unlinked_entry" "allocated s' = allocated unlinked_entry"
    "g_module_head s' = g_module_head unlinked_entry"
    "module_error s' = module_error unlinked_entry"
    "trace s' = [Error_log ''module %s decrease refcont (%d)------'']" "g_lock s'"
    unfolding s'_def using u(5) by (simp_all add: module_error_def)
  have r: "ref_count (memory s' 1) = 0" using f(1) u(4) by simp
  have h: "handle (memory s' 1) \<noteq> 0" using f(1) u(2) by simp
  have n1: "module_close plain_platform 1 0 s' = None"
    using h f(6) by (simp add: module_close_def pthread_mutex_lock_def)
  have n2: "module_open plain_platform ''libB.so'' 0 0 s' = None"
    using f(6) by (simp add: module_open_def pthread_mutex_lock_def)
  from c f r u(3) n1 n2 show ?thesis by blast
qed

text \<open>
  Claim C6, as the code has it. When \<^verbatim>\<open>module_close\<close> (not preloaded, lock free)
  takes the last reference of a linked entry and \<^verbatim>\<open>dlclose\<close> reports an error
  \<open>e\<close>, the call returns \<open>-1\<close> and hands \<open>e\<close> to \<^verbatim>\<open>module_set_error\<close>, so that
  Last Error becomes \<^verbatim>\<open>strdup\<close> of \<open>e\<close> (\<open>e\<close> itself, or \<^verbatim>\<open>NULL\<close> when the copy cannot
  be allocated). The teardown is not rolled back: the entry is unlinked from
  the list, and its name string and its struct are freed.
\<close>

theorem module_close_unload_failure:
  assumes "module \<noteq> 0" and "handle (memory s module) \<noteq> 0" and "\<not> g_lock s"
    and "ref_count (memory s module) = 1"
    and "islist (memory s) (g_module_head s) ps" and "module \<in> set ps"
    and "dlclose P (handle (memory s module)) = Some e"
  shows "\<exists>s'. module_close P module 0 s = Some (- 1, s')
           \<and> module_error s' = strdup P e
           \<and> islist (memory s') (g_module_head s') (remove1 module ps)
           \<and> module \<notin> set (remove1 module ps)
           \<and> allocated s' = allocated s - {module}
           \<and> trace s' = trace s @ [Verbose_log ''module %s decrease refcont (%d)'']
               @ (if exit (memory s module) \<noteq> 0
                  then [Call_exit (exit (memory s module)) module] else [])
               @ [Dlclose (handle (memory s module))]
               @ (if module_error s \<noteq> None then [Free_string (module_error s)] else [])
               @ [Verbose_log ''module %s closed'',
                  Free_string (name (memory s module)), Free_module module]"
proof -
  from assms(5) have "distinct ps" by (rule islist_distinct)
  then have "module \<notin> set (remove1 module ps)" by simp
  with module_close_last[OF assms(1-6), of P 0] assms(7) show ?thesis
    by (auto simp: module_error_def)
qed

theorem module_close_unload_failure_witness:
  "\<exists>s'. module_close busy_platform 1 0 one_entry = Some (- 1, s')
           \<and> module_error s' = Some ''library busy''
           \<and> g_module_head s' = 0
           \<and> allocated s' = {}
           \<and> trace s' = [Verbose_log ''module %s decrease refcont (%d)'', Dlclose 7,
                Verbose_log ''module %s closed'', Free_string (Some ''libA.so''), Free_module 1]"
  using module_close_unload_failure[where module = 1 and s = one_entry and ps = "[1]"
      and P = busy_platform and e = "''library busy''"]
  by (auto simp add: concrete_defs module_error_def strdup_def)

text \<open>
  Claim C6 as it is written says that the error is recorded in Last Error.
  When the message cannot be copied, \<^verbatim>\<open>dlclose\<close> reports \<^verbatim>\<open>library busy\<close>, the call
  returns \<open>-1\<close> and Last Error is \<^verbatim>\<open>NULL\<close>.
\<close>

theorem module_close_unload_failure_counterexample:
  "dlclose busy_no_memory_platform (handle (memory one_entry 1)) = Some ''library busy''
   \<and> map_option fst (module_close busy_no_memory_platform 1 0 one_entry) = Some (- 1)
   \<and> map_option (module_error \<circ> snd) (module_close busy_no_memory_platform 1 0 one_entry)
        = Some None"
  by (simp add: module_close_def module_del_list_def module_del_list_prev.simps
        pthread_mutex_lock_def module_error_def state_defs concrete_defs strdup_def)

text \<open>
  Claim C7. When \<^verbatim>\<open>module_close\<close> with a nonzero \<^verbatim>\<open>preload\<close> takes the last
  reference of a linked entry (names in the list being distinct), it returns 0
  and the entry is unlinked: the list is the old one without it, and a lookup of
  its name, which is how \<^verbatim>\<open>module_open\<close> starts, finds nothing. The struct stays
  allocated with its fields as they were (the count is now 0), and the trace
  shows the two log lines and the finalizer if there is one: no \<^verbatim>\<open>dlclose\<close> and
  no \<^verbatim>\<open>free\<close> of the name or of the struct.
\<close>

theorem module_close_preloaded_last:
  assumes "module \<noteq> 0" and "handle (memory s module) \<noteq> 0" and "\<not> g_lock s"
    and "ref_count (memory s module) = 1"
    and "islist (memory s) (g_module_head s) ps" and "module \<in> set ps"
    and "distinct (map (\<lambda>a. name (memory s a)) ps)"
    and "name (memory s module) = Some path"
    and "preload \<noteq> 0"
  shows "\<exists>s'. module_close P module preload s = Some (0, s')
           \<and> islist (memory s') (g_module_head s') (remove1 module ps)
           \<and> module \<notin> set (remove1 module ps)
           \<and> module_find_with_name (memory s') (g_module_head s') path = Some 0
           \<and> allocated s' = allocated s
           \<and> memory s' module = (memory s module)\<lparr>ref_count := 0\<rparr>
           \<and> trace s' = trace s @ [Verbose_log ''module %s decrease refcont (%d)'']
               @ (if exit (memory s module) \<noteq> 0
                  then [Call_exit (exit (memory s module)) module] else [])
               @ [Verbose_log ''module %s closed'']"
proof -
  from module_close_last[OF assms(1-6), of P preload] assms(9) obtain s' where
    r: "module_close P module preload s = Some (0, s')"
    and l: "islist (memory s') (g_module_head s') (remove1 module ps)"
    and fr: "\<forall>a. memory s' a = (memory s a)
               \<lparr>ref_count := (if a = module then 0 else ref_count (memory s a)),
                next := next (memory s' a)\<rparr>"
    and rest: "memory s' module = (memory s module)\<lparr>ref_count := 0\<rparr>"
      "allocated s' = allocated s"
      "trace s' = trace s @ [Verbose_log ''module %s decrease refcont (%d)'']
               @ (if exit (memory s module) \<noteq> 0
                  then [Call_exit (exit (memory s module)) module] else [])
               @ [Verbose_log ''module %s closed'']"
    by auto
  from assms(5) have dist: "distinct ps" by (rule islist_distinct)
  then have gone: "module \<notin> set (remove1 module ps)" by simp
  have nm: "name (memory s' a) = name (memory s a)" for a
  proof -
    from fr have "memory s' a = (memory s a)
               \<lparr>ref_count := (if a = module then 0 else ref_count (memory s a)),
                next := next (memory s' a)\<rparr>" ..
    then have "name (memory s' a) = name ((memory s a)
               \<lparr>ref_count := (if a = module then 0 else ref_count (memory s a)),
                next := next (memory s' a)\<rparr>)" by simp
    then show ?thesis by simp
  qed
  have "\<forall>a \<in> set (remove1 module ps). name (memory s' a) \<noteq> Some path"
  proof
    fix a assume a: "a \<in> set (remove1 module ps)"
    with dist have "a \<in> set ps" "a \<noteq> module" by auto
    with assms(6,7) have "name (memory s a) \<noteq> name (memory s module)"
      by (auto simp: distinct_map inj_on_def)
    with assms(8) nm show "name (memory s' a) \<noteq> Some path" by simp
  qed
  with l have "module_find_with_name (memory s') (g_module_head s') path = Some 0"
    by (rule find_with_name_absent)
  with r l gone rest show ?thesis by blast
qed

theorem module_close_preloaded_last_witness:
  "\<exists>s'. module_close plain_platform 1 1 one_entry = Some (0, s')
           \<and> g_module_head s' = 0
           \<and> module_find_with_name (memory s') (g_module_head s') ''libA.so'' = Some 0
           \<and> allocated s' = {1}
           \<and> memory s' 1 = blank\<lparr>name := Some ''libA.so'', ref_count := 0, handle := 7\<rparr>
           \<and> trace s' = [Verbose_log ''module %s decrease refcont (%d)'',
                 Verbose_log ''module %s closed'']"
  using module_close_preloaded_last[where module = 1 and s = one_entry and ps = "[1]"
      and P = plain_platform and preload = 1 and path = "''libA.so''"]
  by (auto simp add: concrete_defs)

text \<open>
  Claim C8. When the handle is a preload handle and the initializer fails,
  \<^verbatim>\<open>module_open\<close> returns \<^verbatim>\<open>NULL\<close> through the same \<^verbatim>\<open>free_handle\<close> label as the
  loader path: the events of the call are the lookup and the call of the
  initializer, the two log lines, then \<^verbatim>\<open>dlclose\<close> of the preload handle and
  \<^verbatim>\<open>free\<close> of the new struct. \<^verbatim>\<open>dlopen\<close> is not among them.
\<close>

theorem module_open_init_failure_preload:
  assumes "\<not> g_lock s" and "islist (memory s) (g_module_head s) ps"
    and "\<forall>a \<in> set ps. name (memory s a) \<noteq> Some path"
    and "malloc P \<noteq> 0" and "malloc P \<notin> set ps"
    and "preload \<noteq> 0"
    and "\<forall>a \<in> set ps. handle (memory s a) \<noteq> preload"
    and "dlsym P preload ''module_init'' = (f, None)"
    and "fst (run_init P f (malloc P)) \<noteq> 0"
  shows "\<exists>s'. module_open P path flag preload s = Some (0, s')
           \<and> trace s' = trace s @
                [Dlsym preload ''module_init'',
                 Error_log ''module %s has init(), call the symbol'',
                 Call_init f (malloc P),
                 Error_log ''module %s init() failed (%d)'',
                 Dlclose preload,
                 Free_module (malloc P)]"
proof -
  obtain r p where rp: "run_init P f (malloc P) = (r, p)" by (cases "run_init P f (malloc P)")
  with assms(9) have r: "r \<noteq> 0" by simp
  have ld: "preload \<noteq> 0 \<or> snd (dlopen P path flag) = None" using assms(6) by simp
  have h: "preload = (if preload \<noteq> 0 then preload else fst (dlopen P path flag))"
    using assms(6) by simp
  from module_open_init_fails[OF assms(1-5) ld h assms(7,8) rp r] assms(6)
  show ?thesis by simp
qed

theorem module_open_init_failure_preload_witness:
  "\<exists>s'. module_open init_fails_platform ''libA.so'' 0 5 (empty_registry blank_memory) = Some (0, s')
           \<and> trace s' =
                [Dlsym 5 ''module_init'',
                 Error_log ''module %s has init(), call the symbol'',
                 Call_init 9 1,
                 Error_log ''module %s init() failed (%d)'',
                 Dlclose 5,
                 Free_module 1]"
  using module_open_init_failure_preload[where s = "empty_registry blank_memory" and ps = "[]"
      and P = init_fails_platform and path = "''libA.so''" and flag = 0 and preload = 5
      and f = 9]
  by (simp add: concrete_defs)

text \<open>
  Claim C9, as the code has it. \<^verbatim>\<open>module_symbol\<close> returns \<^verbatim>\<open>NULL\<close> at once and leaves
  the whole state as it is (the lock is not taken, Last Error is not touched)
  when the entry is \<^verbatim>\<open>NULL\<close>, the entry has no handle, or the symbol name is
  \<^verbatim>\<open>NULL\<close>. Otherwise, called with the lock free: on a failed lookup it returns
  \<^verbatim>\<open>NULL\<close> and hands the loader's message to \<^verbatim>\<open>module_set_error\<close>, so that Last
  Error becomes \<^verbatim>\<open>strdup\<close> of the message: the message itself, or \<^verbatim>\<open>NULL\<close> when
  the copy cannot be allocated; on a successful lookup it returns the resolved
  address and Last Error is what it was.
\<close>

theorem module_symbol_cases:
  "(module = 0 \<or> handle (memory s module) = 0 \<or> string = None \<longrightarrow>
      module_symbol P module string s = Some (0, s))
   \<and> (module \<noteq> 0 \<and> handle (memory s module) \<noteq> 0 \<and> string = Some str \<and> \<not> g_lock s \<longrightarrow>
        (\<forall>sym e. dlsym P (handle (memory s module)) str = (sym, Some e) \<longrightarrow>
           (\<exists>s'. module_symbol P module string s = Some (0, s') \<and> module_error s' = strdup P e))
      \<and> (\<forall>sym. dlsym P (handle (memory s module)) str = (sym, None) \<longrightarrow>
           (\<exists>s'. module_symbol P module string s = Some (sym, s') \<and> module_error s' = module_error s)))"
  by (auto simp: module_symbol_def pthread_mutex_lock_def module_error_def state_defs
           split: option.splits)

text \<open>The four cases on the registry holding \<^verbatim>\<open>libA.so\<close>: a \<^verbatim>\<open>NULL\<close> entry, a \<^verbatim>\<open>NULL\<close>
  name, a symbol the library does not export, and one it does.\<close>

theorem module_symbol_cases_witness:
  "module_symbol symbol_platform 0 (Some ''f'') one_entry = Some (0, one_entry)
   \<and> module_symbol symbol_platform 1 None one_entry = Some (0, one_entry)
   \<and> (\<exists>s'. module_symbol symbol_platform 1 (Some ''g'') one_entry = Some (0, s')
          \<and> module_error s' = Some ''undefined symbol'')
   \<and> (\<exists>s'. module_symbol symbol_platform 1 (Some ''f'') one_entry = Some (40, s')
          \<and> module_error s' = None)"
proof -
  have a: "module_symbol symbol_platform 0 (Some ''f'') one_entry = Some (0, one_entry)"
    using module_symbol_cases[where module = 0 and s = one_entry and string = "Some ''f''"
        and P = symbol_platform]
    by simp
  have b: "module_symbol symbol_platform 1 None one_entry = Some (0, one_entry)"
    using module_symbol_cases[where module = 1 and s = one_entry and string = None
        and P = symbol_platform]
    by simp
  have c: "\<exists>s'. module_symbol symbol_platform 1 (Some ''g'') one_entry = Some (0, s')
          \<and> module_error s' = Some ''undefined symbol''"
    using module_symbol_cases[where module = 1 and s = one_entry and string = "Some ''g''"
        and str = "''g''" and P = symbol_platform]
    by (simp add: concrete_defs strdup_def module_error_def)
  have d: "\<exists>s'. module_symbol symbol_platform 1 (Some ''f'') one_entry = Some (40, s')
          \<and> module_error s' = None"
    using module_symbol_cases[where module = 1 and s = one_entry and string = "Some ''f''"
        and str = "''f''" and P = symbol_platform]
    by (simp add: concrete_defs strdup_def module_error_def)
  from a b c d show ?thesis by blast
qed

text \<open>
  Claim C9 as it is written says that a failed lookup records the loader error
  in Last Error. \<^verbatim>\<open>module_set_error\<close> stores what \<^verbatim>\<open>strdup\<close> returns without
  looking at it: when the copy cannot be allocated, the loader reports
  \<^verbatim>\<open>undefined symbol\<close> and Last Error ends up \<^verbatim>\<open>NULL\<close>.
\<close>

theorem module_symbol_no_copy_counterexample:
  "snd (dlsym no_memory_platform (handle (memory one_entry 1)) ''g'') = Some ''undefined symbol''
   \<and> map_option (module_error \<circ> snd) (module_symbol no_memory_platform 1 (Some ''g'') one_entry)
       = Some None"
  by (simp add: module_symbol_def pthread_mutex_lock_def module_error_def state_defs
        concrete_defs strdup_def)

text \<open>
  Claim C10, as the code has it. In a registry that satisfies the invariant,
  with the lock free, \<^verbatim>\<open>module_close\<close> of an allocated entry with a handle and a
  nonzero \<^verbatim>\<open>preload\<close> returns; the result is never \<open>-1\<close>; it is the remaining
  reference count read as a C \<^verbatim>\<open>int\<close>, which is the count itself and not
  negative whenever the count before the call was at most \<open>2\<^sup>3\<^sup>1\<close>; Last Error
  is not written and \<^verbatim>\<open>dlclose\<close> is not called.
\<close>

theorem module_close_preloaded_result:
  assumes inv: "registry_inv s ps" and lk: "\<not> g_lock s"
    and m: "module \<noteq> 0" "module \<in> allocated s" and h: "handle (memory s module) \<noteq> 0"
    and pre: "preload \<noteq> 0"
  shows "\<exists>r s'. module_close P module preload s = Some (r, s')
           \<and> r \<noteq> - 1
           \<and> r = sint (ref_count (memory s' module))
           \<and> (ref_count (memory s module) \<le> 0x80000000 \<longrightarrow>
                0 \<le> r \<and> r = uint (ref_count (memory s' module)))
           \<and> module_error s' = module_error s
           \<and> (\<forall>h. count_list (trace s') (Dlclose h) = count_list (trace s) (Dlclose h))"
proof -
  consider (zero) "ref_count (memory s module) = 0"
    | (one) "ref_count (memory s module) = 1"
    | (more) "ref_count (memory s module) \<noteq> 0" "ref_count (memory s module) \<noteq> 1"
    by blast
  then show ?thesis
  proof cases
    case zero
    with m h lk show ?thesis
      by (simp add: module_close_def pthread_mutex_lock_def module_error_def state_defs)
  next
    case one
    have el: "module \<in> set ps"
    proof (rule ccontr)
      assume "module \<notin> set ps"
      with m(2) have "module \<in> allocated s - set ps" by simp
      with inv have "ref_count (memory s module) = 0" by (simp add: registry_inv_def)
      with one show False by simp
    qed
    from inv have l: "islist (memory s) (g_module_head s) ps" by (simp add: registry_inv_def)
    from module_close_last[OF m(1) h lk one l el, of P preload] pre obtain s' where
      "module_close P module preload s = Some (0, s')"
      "memory s' module = (memory s module)\<lparr>ref_count := 0\<rparr>"
      "g_module_err s' = g_module_err s"
      "trace s' = trace s @ [Verbose_log ''module %s decrease refcont (%d)'']
             @ (if exit (memory s module) \<noteq> 0
                then [Call_exit (exit (memory s module)) module] else [])
             @ [Verbose_log ''module %s closed'']"
      by auto
    then show ?thesis by (simp add: module_error_def)
  next
    case more
    have "sint (ref_count (memory s module) - 1) \<noteq> - 1"
      using more(1) by (simp add: sint_minus1_iff)
    with module_close_not_last[OF m(1) h lk more, of P preload] dec_nonneg[OF more(1)]
    show ?thesis by (simp add: module_error_def)
  qed
qed

theorem module_close_preloaded_result_witness:
  "\<exists>r s'. module_close plain_platform 1 1 one_entry = Some (r, s')
          \<and> r \<noteq> - 1 \<and> 0 \<le> r
          \<and> r = uint (ref_count (memory s' 1))
          \<and> module_error s' = None
          \<and> count_list (trace s') (Dlclose 7) = 0"
proof -
  have "registry_inv one_entry [1]"
    by (simp add: concrete_defs registry_inv_def)
  moreover have "\<not> g_lock one_entry" "1 \<in> allocated one_entry"
    "handle (memory one_entry 1) \<noteq> 0" "ref_count (memory one_entry 1) \<le> 0x80000000"
    "module_error one_entry = None" "trace one_entry = []"
    by (simp_all add: concrete_defs module_error_def)
  ultimately show ?thesis
    using module_close_preloaded_result[where s = one_entry and ps = "[1]" and module = 1
      and preload = 1 and P = plain_platform]
    by fastforce
qed

text \<open>
  Claim C10 as it is written says that the result is never negative. The
  counter is unsigned and the result is an \<^verbatim>\<open>int\<close>: with \<open>2\<^sup>3\<^sup>1 + 1\<close> holders, a
  preloaded close leaves \<open>2\<^sup>3\<^sup>1\<close> and returns \<^verbatim>\<open>INT_MIN\<close>.
\<close>

theorem module_close_preloaded_negative_counterexample:
  "map_option fst (module_close plain_platform 1 1 crowded_entry) = Some (- 2147483648)"
  by (simp add: module_close_def pthread_mutex_lock_def state_defs concrete_defs)

end
